theory Spec2Isabelle
  imports Complex_Main
begin

section \<open>JavaScript strings, numbers and regular expressions\<close>

text \<open>
  A page is a \<^typ>\<open>string\<close>; each \<^typ>\<open>char\<close> stands for one code unit of the
  JavaScript string (code units below 256). A JavaScript number is \<open>NaN\<close>, an infinity,
  or a double given by its exact value as a rational: \<open>Num (59 / 2)\<close> is 29.5, and the
  number that the literal \<open>29.99\<close> denotes is \<open>to_double (2999 / 100)\<close>, the double
  nearest to it. The negative zero is not told from zero.
\<close>

datatype number = NaN | Num rat | PosInf | NegInf

fun Number_isNaN :: "number \<Rightarrow> bool" where
  "Number_isNaN NaN = True"
| "Number_isNaN _ = False"

text \<open>\<open>a < b\<close> on numbers: false as soon as one side is \<open>NaN\<close>.\<close>

fun js_lt :: "number \<Rightarrow> number \<Rightarrow> bool" where
  "js_lt (Num a) (Num b) = (a < b)"
| "js_lt (Num a) PosInf = True"
| "js_lt NegInf (Num b) = True"
| "js_lt NegInf PosInf = True"
| "js_lt _ _ = False"

text \<open>\<open>Math.round\<close>: the nearest integer, a tie going up.\<close>

fun Math_round :: "number \<Rightarrow> number" where
  "Math_round (Num x) = Num (of_int \<lfloor>x + 1 / 2\<rfloor>)"
| "Math_round n = n"

subsection \<open>The double nearest to a rational\<close>

text \<open>\<open>ilog2 n\<close> is the position of the leading bit of \<open>n\<close>, for \<open>n \<ge> 1\<close>.\<close>

function ilog2 :: "int \<Rightarrow> int" where
  "ilog2 n = (if n < 2 then 0 else 1 + ilog2 (n div 2))"
  by pat_completeness auto
termination
  by (relation "measure nat") auto

declare ilog2.simps [simp del]

definition pow2 :: "int \<Rightarrow> rat" where
  "pow2 e = (if 0 \<le> e then 2 ^ nat e else 1 / 2 ^ nat (- e))"

text \<open>The binary exponent of a positive rational: \<open>2 ^ e \<le> q < 2 ^ (e + 1)\<close>.\<close>

definition exponent_of :: "rat \<Rightarrow> int" where
  "exponent_of q =
     (if 1 \<le> q then ilog2 \<lfloor>q\<rfloor>
      else (let k = ilog2 \<lfloor>1 / q\<rfloor> in if pow2 (- k) \<le> q then - k else - k - 1))"

definition round_half_even :: "rat \<Rightarrow> int" where
  "round_half_even x =
     (let f = \<lfloor>x\<rfloor>; r = x - of_int f
      in if r < 1 / 2 then f else if 1 / 2 < r then f + 1 else if even f then f else f + 1)"

text \<open>
  The number value of a rational: the nearest double, a tie going to the even
  significand (53 bits, exponents from -1022 on, subnormal below), and an infinity from
  \<open>2 ^ 1024\<close> on.
\<close>

definition to_double :: "rat \<Rightarrow> number" where
  "to_double q =
     (if q = 0 then Num 0
      else
        (let a = \<bar>q\<bar>;
             e = max (exponent_of a) (- 1022);
             ulp = pow2 (e - 52);
             r = of_int (round_half_even (a / ulp)) * ulp
         in if pow2 1024 \<le> r then (if q < 0 then NegInf else PosInf)
            else Num (if q < 0 then - r else r)))"

subsection \<open>Parsing numbers\<close>

definition is_digit :: "char \<Rightarrow> bool" where
  "is_digit c = (c \<in> set ''0123456789'')"

text \<open>The white space of \<open>\s\<close> and of the number parsers, among the code units below 256:
  tab, line feed, vertical tab, form feed, carriage return, space, no-break space.\<close>

definition ws_chars :: "char list" where
  "ws_chars = [CHR 0x09, CHR 0x0A, CHR 0x0B, CHR 0x0C, CHR 0x0D, CHR 0x20, CHR 0xA0]"

definition is_ws :: "char \<Rightarrow> bool" where
  "is_ws c = (c \<in> set ws_chars)"

definition digit_val :: "char \<Rightarrow> int" where
  "digit_val c = of_char c - 48"

text \<open>The value of a run of decimal digits, most significant first.\<close>

definition digits_val :: "string \<Rightarrow> int" where
  "digits_val ds = foldl (\<lambda>acc c. 10 * acc + digit_val c) 0 ds"

text \<open>
  \<open>parseInt(s, 10)\<close>: leading white space is skipped, a sign is read, then the longest
  run of digits; no digit there gives \<open>NaN\<close>, otherwise the number value of the integer.
\<close>

definition parseInt :: "string \<Rightarrow> number" where
  "parseInt s =
     (let t = dropWhile is_ws s;
          neg = (case t of [] \<Rightarrow> False | c # _ \<Rightarrow> c = CHR ''-'');
          u = (case t of [] \<Rightarrow> [] | c # cs \<Rightarrow> if c = CHR ''+'' \<or> c = CHR ''-'' then cs else t);
          ds = takeWhile is_digit u
      in if ds = [] then NaN
         else to_double (if neg then - of_int (digits_val ds) else of_int (digits_val ds)))"

text \<open>
  The exponent part of a decimal literal: \<open>e\<close> or \<open>E\<close>, a sign, and at least one digit;
  anything else is no exponent part.
\<close>

definition exponent_part :: "string \<Rightarrow> int" where
  "exponent_part s =
     (case s of
        [] \<Rightarrow> 0
      | c # cs \<Rightarrow>
          if c = CHR ''e'' \<or> c = CHR ''E'' then
            (let neg = (case cs of [] \<Rightarrow> False | d # _ \<Rightarrow> d = CHR ''-'');
                 u = (case cs of [] \<Rightarrow> []
                      | d # ds \<Rightarrow> if d = CHR ''+'' \<or> d = CHR ''-'' then ds else cs);
                 es = takeWhile is_digit u
             in if es = [] then 0
                else if neg then - digits_val es else digits_val es)
          else 0)"

definition pow10 :: "int \<Rightarrow> rat" where
  "pow10 e = (if 0 \<le> e then 10 ^ nat e else 1 / 10 ^ nat (- e))"

text \<open>
  The exact value of the longest prefix that is an unsigned decimal literal: digits, a
  fraction, an exponent, with one digit at least before the exponent. \<open>None\<close> when
  there is no such prefix.
\<close>

definition unsigned_decimal :: "string \<Rightarrow> rat option" where
  "unsigned_decimal u =
     (let ip = takeWhile is_digit u;
          r1 = dropWhile is_digit u;
          has_dot = (case r1 of [] \<Rightarrow> False | c # _ \<Rightarrow> c = CHR ''.'');
          fp = (if has_dot then takeWhile is_digit (tl r1) else []);
          r2 = (if has_dot then dropWhile is_digit (tl r1) else r1)
      in if ip = [] \<and> fp = [] then None
         else Some ((of_int (digits_val (ip @ fp)) :: rat) / 10 ^ length fp
                      * pow10 (exponent_part r2)))"

text \<open>
  \<open>parseFloat\<close>: leading white space is skipped, a sign is read, then \<open>Infinity\<close> or the
  longest prefix that is a decimal literal, whose number value is the result. No such
  prefix gives \<open>NaN\<close>.
\<close>

definition parseFloat :: "string \<Rightarrow> number" where
  "parseFloat s =
     (let t = dropWhile is_ws s;
          neg = (case t of [] \<Rightarrow> False | c # _ \<Rightarrow> c = CHR ''-'');
          u = (case t of [] \<Rightarrow> [] | c # cs \<Rightarrow> if c = CHR ''+'' \<or> c = CHR ''-'' then cs else t)
      in if take 8 u = ''Infinity'' then (if neg then NegInf else PosInf)
         else
           (case unsigned_decimal u of
              None \<Rightarrow> NaN
            | Some v \<Rightarrow> to_double (if neg then - v else v)))"

subsection \<open>Regular expressions\<close>

text \<open>
  The part of the regular expression language that the extractors use. A character class
  is \<open>[...]\<close> or \<open>[^...]\<close>; quantifiers stand on a class (\<open>c*\<close>, \<open>c+\<close>, the lazy
  \<open>c{0,n}?\<close>) or make a non-capturing group optional.
\<close>

datatype cset = Chars "char list" | NotChars "char list"

datatype regex =
    Lit string
  | Star cset
  | Plus cset
  | LazyUpTo nat cset
  | Opt regex
  | Seq regex regex
  | Alt regex regex

text \<open>
  The canonical form of a code unit under the flag \<open>i\<close>: its upper case. The patterns
  are ASCII and a code unit beyond ASCII never folds to an ASCII one, so folding the
  ASCII letters is enough.
\<close>

definition upper :: "char \<Rightarrow> char" where
  "upper c =
     (case map_of (zip ''abcdefghijklmnopqrstuvwxyz'' ''ABCDEFGHIJKLMNOPQRSTUVWXYZ'') c of
        Some u \<Rightarrow> u
      | None \<Rightarrow> c)"

definition canon :: "bool \<Rightarrow> char \<Rightarrow> char" where
  "canon ci c = (if ci then upper c else c)"

fun in_cset :: "bool \<Rightarrow> cset \<Rightarrow> char \<Rightarrow> bool" where
  "in_cset ci (Chars xs) c = (canon ci c \<in> set (map (canon ci) xs))"
| "in_cset ci (NotChars xs) c = (canon ci c \<notin> set (map (canon ci) xs))"

text \<open>Whether the literal is a prefix of the subject, up to case when \<open>ci\<close>.\<close>

fun lit_prefix :: "bool \<Rightarrow> string \<Rightarrow> string \<Rightarrow> bool" where
  "lit_prefix ci [] s = True"
| "lit_prefix ci (p # ps) [] = False"
| "lit_prefix ci (p # ps) (c # cs) = (canon ci p = canon ci c \<and> lit_prefix ci ps cs)"

text \<open>
  \<open>rmatch ci r s\<close> lists every way \<open>r\<close> matches a prefix of \<open>s\<close>, in the order in which the
  backtracking matcher tries them: a greedy quantifier the longest run first, a lazy one
  the shortest first, the left alternative before the right one. Each entry is the rest
  of the subject after the match.
\<close>

fun rmatch :: "bool \<Rightarrow> regex \<Rightarrow> string \<Rightarrow> string list" where
  "rmatch ci (Lit l) s = (if lit_prefix ci l s then [drop (length l) s] else [])"
| "rmatch ci (Star c) s =
     map (\<lambda>k. drop k s) (rev [0 ..< Suc (length (takeWhile (in_cset ci c) s))])"
| "rmatch ci (Plus c) s =
     map (\<lambda>k. drop k s) (rev [1 ..< Suc (length (takeWhile (in_cset ci c) s))])"
| "rmatch ci (LazyUpTo n c) s =
     map (\<lambda>k. drop k s) [0 ..< Suc (min n (length (takeWhile (in_cset ci c) s)))]"
| "rmatch ci (Opt r) s = rmatch ci r s @ [s]"
| "rmatch ci (Seq r1 r2) s = concat (map (rmatch ci r2) (rmatch ci r1 s))"
| "rmatch ci (Alt r1 r2) s = rmatch ci r1 s @ rmatch ci r2 s"

text \<open>
  Every pattern of the sources that captures has the shape \<open>a(b)c\<close>, with one capture
  group. \<open>match_here ci a b c s\<close> lists the captured texts of the matches of \<open>a(b)c\<close> at
  the start of \<open>s\<close>, in the matcher's order.
\<close>

definition match_here :: "bool \<Rightarrow> regex \<Rightarrow> regex \<Rightarrow> regex \<Rightarrow> string \<Rightarrow> string list" where
  "match_here ci a b c s =
     concat (map (\<lambda>s1.
       concat (map (\<lambda>s2.
         map (\<lambda>s3. take (length s1 - length s2) s1) (rmatch ci c s2))
         (rmatch ci b s1)))
       (rmatch ci a s))"

text \<open>
  \<open>s.match(/a(b)c/)\<close>, without the flag \<open>g\<close>: the first match at the leftmost position
  where there is one; \<open>None\<close> is \<open>null\<close>, and \<open>Some g\<close> a match whose element \<open>[1]\<close> is \<open>g\<close>.
\<close>

fun js_match :: "bool \<Rightarrow> regex \<Rightarrow> regex \<Rightarrow> regex \<Rightarrow> string \<Rightarrow> string option" where
  "js_match ci a b c [] = (case match_here ci a b c [] of [] \<Rightarrow> None | g # _ \<Rightarrow> Some g)"
| "js_match ci a b c (x # xs) =
     (case match_here ci a b c (x # xs) of [] \<Rightarrow> js_match ci a b c xs | g # _ \<Rightarrow> Some g)"

text \<open>\<open>r.test(s)\<close>: whether \<open>r\<close> matches at some position of \<open>s\<close>.\<close>

fun js_test :: "bool \<Rightarrow> regex \<Rightarrow> string \<Rightarrow> bool" where
  "js_test ci r [] = (rmatch ci r [] \<noteq> [])"
| "js_test ci r (x # xs) = (rmatch ci r (x # xs) \<noteq> [] \<or> js_test ci r xs)"

text \<open>\<open>s.replace(/c/g, '')\<close> for a character class \<open>c\<close>: every character of the class is dropped.\<close>

definition replace_g :: "cset \<Rightarrow> string \<Rightarrow> string" where
  "replace_g c s = filter (\<lambda>x. \<not> in_cset False c x) s"

fun seqs :: "regex list \<Rightarrow> regex" where
  "seqs [] = Lit []"
| "seqs [r] = r"
| "seqs (r # rs) = Seq r (seqs rs)"

definition digits :: "char list" where
  "digits = ''0123456789''"

text \<open>The classes \<open>\s\<close> and \<open>[\s\S]\<close>.\<close>

definition ws :: cset where
  "ws = Chars ws_chars"

definition anychar :: cset where
  "anychar = NotChars []"

section \<open>The extractors\<close>

text \<open>The exceptions, by where they are thrown.\<close>

datatype error =
    SyntaxError | CheerioError | ConfigError | ScanError | FetchError | LookupError
  | PublishError | UpdateError

text \<open>A reading: \<open>price\<close> is a number or \<open>null\<close>, \<open>inStock\<close> a boolean or \<open>null\<close>.\<close>

record reading =
  price :: "number option"
  inStock :: "bool option"

subsection \<open>Tokopedia (\<open>src/handler.ts\<close>)\<close>

text \<open>\<open>/price=([0-9]+(?:\.[0-9]+)?)/\<close>\<close>

definition price_param_grp :: regex where
  "price_param_grp = Seq (Plus (Chars digits)) (Opt (Seq (Lit ''.'') (Plus (Chars digits))))"

definition price_param :: "string \<Rightarrow> string option" where
  "price_param s = js_match False (Lit ''price='') price_param_grp (Lit []) s"

text \<open>\<open>/Rp\s*([0-9\.]+)/\<close>\<close>

definition rp_text :: "string \<Rightarrow> string option" where
  "rp_text s = js_match False (Seq (Lit ''Rp'') (Star ws)) (Plus (Chars (digits @ ''.''))) (Lit []) s"

text \<open>\<open>/Stok:\s*([0-9]+)/i\<close>\<close>

definition stok_qty :: "string \<Rightarrow> string option" where
  "stok_qty s = js_match True (Seq (Lit ''Stok:'') (Star ws)) (Plus (Chars digits)) (Lit []) s"

text \<open>\<open>/Stok habis|stok habis|sold out|habis/i\<close>\<close>

definition habis_re :: regex where
  "habis_re = Alt (Lit ''Stok habis'') (Alt (Lit ''stok habis'') (Alt (Lit ''sold out'') (Lit ''habis'')))"

text \<open>
  The library cheerio is not part of the repository: \<open>cheerio_text html\<close> stands for
  \<open>cheerio.load(html).text()\<close>, the text content of the parsed page or the exception
  that the library throws, and is a parameter of the extractor. The extractor has no
  \<open>try\<close> of its own, so an exception of the library leaves it.
\<close>

definition extractTokopediaPriceAndStock ::
  "(string \<Rightarrow> error + string) \<Rightarrow> string \<Rightarrow> error + reading" where
  "extractTokopediaPriceAndStock cheerio_text html =
     (case cheerio_text html of
        Inl err \<Rightarrow> Inl err
      | Inr text \<Rightarrow>
          (let price =
                 (case price_param html of
                    Some g \<Rightarrow> Some (Math_round (parseFloat g))
                  | None \<Rightarrow>
                      (case rp_text text of
                         Some g \<Rightarrow>
                           (let normalized = replace_g (Chars ''.'') g;
                                parsed = parseInt normalized
                            in if \<not> Number_isNaN parsed then Some parsed else None)
                       | None \<Rightarrow> None));
               inStock =
                 (case stok_qty text of
                    Some g \<Rightarrow>
                      (let qty = parseInt g
                       in if \<not> Number_isNaN qty then Some (js_lt (Num 0) qty) else None)
                  | None \<Rightarrow> if js_test True habis_re text then Some False else None)
           in Inr \<lparr>price = price, inStock = inStock\<rparr>))"

subsection \<open>Amazon\<close>

text \<open>\<open>/"priceAmount"\s*:\s*([0-9.]+)/\<close>\<close>

definition priceAmount_field :: "string \<Rightarrow> string option" where
  \<open>priceAmount_field s =
     js_match False (seqs [Lit ''"priceAmount"'', Star ws, Lit '':'', Star ws])
       (Plus (Chars (digits @ ''.''))) (Lit []) s\<close>

text \<open>\<open>/"desktop_buybox_group_1"\s*:\s*\[\{"displayPrice":"([^"]+)"/\<close>\<close>

definition buyBox_displayPrice :: "string \<Rightarrow> string option" where
  \<open>buyBox_displayPrice s =
     js_match False
       (seqs [Lit ''"desktop_buybox_group_1"'', Star ws, Lit '':'', Star ws,
              Lit ''[{"displayPrice":"''])
       (Plus (NotChars ''"'')) (Lit ''"'') s\<close>

text \<open>\<open>/Product Summary:[\s\S]{0,200}?One-time purchase:\s*([^<\n]+)/\<close>\<close>

definition summary_purchase :: "string \<Rightarrow> string option" where
  "summary_purchase s =
     js_match False
       (seqs [Lit ''Product Summary:'', LazyUpTo 200 anychar, Lit ''One-time purchase:'', Star ws])
       (Plus (NotChars [CHR ''<'', CHR 0x0A])) (Lit []) s"

text \<open>
  Nothing in the \<open>try\<close> block of the first strategy can throw (\<open>match\<close> on a string and
  \<open>parseFloat\<close> are total), so its \<open>catch\<close> has no branch here, and the extractor is a
  function to readings.
\<close>

definition extractAmazonPriceAndStock :: "string \<Rightarrow> reading" where
  "extractAmazonPriceAndStock html =
     (let price0 =
            (case priceAmount_field html of
               Some g \<Rightarrow>
                 (let parsed = parseFloat g
                  in if \<not> Number_isNaN parsed then Some parsed else None)
             | None \<Rightarrow> None);
          price1 =
            (if price0 = None then
               (case buyBox_displayPrice html of
                  Some displayPrice \<Rightarrow>
                    (let cleaned = replace_g (NotChars (digits @ ''.,'')) displayPrice;
                         normalized = replace_g (Chars '','') cleaned;
                         parsed = parseFloat normalized
                     in if \<not> Number_isNaN parsed then Some parsed else price0)
                | None \<Rightarrow> price0)
             else price0);
          price2 =
            (if price1 = None then
               (case summary_purchase html of
                  Some rawPrice \<Rightarrow>
                    (let cleaned = replace_g (NotChars (digits @ ''.,'')) rawPrice;
                         normalized = replace_g (Chars '','') cleaned;
                         parsed = parseFloat normalized
                     in if \<not> Number_isNaN parsed then Some parsed else price1)
                | None \<Rightarrow> price1)
             else price1);
          inStock =
            (if js_test True (Lit ''In Stock'') html then Some True
             else if js_test True (Lit ''Currently unavailable'') html then Some False
             else None)
      in \<lparr>price = price2, inStock = inStock\<rparr>)"

subsection \<open>Lazada\<close>

text \<open>
  \<open>JSON.parse\<close> belongs to the language, not to the repository: it is a parameter, a
  function that returns the parsed value or throws \<open>SyntaxError\<close>.
\<close>

datatype json =
    JNull
  | JBool bool
  | JNum number
  | JStr string
  | JArr "json list"
  | JObj "(string \<times> json) list"

text \<open>The truthiness of a parsed value, and the property \<open>pdt_price\<close> of it
  (\<open>undefined\<close> on anything but an object that has the key).\<close>

fun truthy_json :: "json \<Rightarrow> bool" where
  "truthy_json JNull = False"
| "truthy_json (JBool b) = b"
| "truthy_json (JNum n) = (n \<noteq> NaN \<and> n \<noteq> Num 0)"
| "truthy_json (JStr s) = (s \<noteq> [])"
| "truthy_json (JArr _) = True"
| "truthy_json (JObj _) = True"

fun get_prop :: "json \<Rightarrow> string \<Rightarrow> json option" where
  "get_prop (JObj kvs) k = map_of kvs k"
| "get_prop _ k = None"

text \<open>\<open>/var\s+pdpTrackingData\s*=\s*"([^"]*)"/\<close> and the same with single quotes.\<close>

definition tracking_dq :: "string \<Rightarrow> string option" where
  \<open>tracking_dq s =
     js_match False
       (seqs [Lit ''var'', Plus ws, Lit ''pdpTrackingData'', Star ws, Lit ''='', Star ws, Lit ''"''])
       (Star (NotChars ''"'')) (Lit ''"'') s\<close>

definition tracking_sq :: "string \<Rightarrow> string option" where
  "tracking_sq s =
     js_match False
       (seqs [Lit ''var'', Plus ws, Lit ''pdpTrackingData'', Star ws, Lit ''='', Star ws, Lit [CHR 0x27]])
       (Star (NotChars [CHR 0x27])) (Lit [CHR 0x27]) s"

text \<open>\<open>/pdt_price\":\"([^\"]+)\"/\<close> (where \<open>\"\<close> is the quote itself) and
  \<open>/"pdt_price":"([^"]+)"/\<close>.\<close>

definition pdt_price_escaped :: "string \<Rightarrow> string option" where
  \<open>pdt_price_escaped s = js_match False (Lit ''pdt_price":"'') (Plus (NotChars ''"'')) (Lit ''"'') s\<close>

definition pdt_price_plain :: "string \<Rightarrow> string option" where
  \<open>pdt_price_plain s = js_match False (Lit ''"pdt_price":"'') (Plus (NotChars ''"'')) (Lit ''"'') s\<close>

text \<open>
  The body of the \<open>try\<close> block: \<open>Inl e\<close> when \<open>JSON.parse\<close> throws \<open>e\<close>, otherwise the
  price found there, if any.
\<close>

definition lazada_try :: "(string \<Rightarrow> error + json) \<Rightarrow> string \<Rightarrow> error + number option" where
  "lazada_try JSON_parse html =
     (let trackingMatch = (case tracking_dq html of Some g \<Rightarrow> Some g | None \<Rightarrow> tracking_sq html)
      in case trackingMatch of
           Some jsonStr \<Rightarrow>
             (case JSON_parse jsonStr of
                Inl e \<Rightarrow> Inl e
              | Inr tracking \<Rightarrow>
                  (if truthy_json tracking then
                     (case get_prop tracking ''pdt_price'' of
                        Some (JStr pdt_price) \<Rightarrow>
                          (let ds = replace_g (NotChars digits) pdt_price;
                               parsed = parseInt ds
                           in Inr (if \<not> Number_isNaN parsed then Some parsed else None))
                      | _ \<Rightarrow> Inr None)
                   else Inr None))
         | None \<Rightarrow> Inr None)"

definition extractLazadaPriceAndStock :: "(string \<Rightarrow> error + json) \<Rightarrow> string \<Rightarrow> reading" where
  "extractLazadaPriceAndStock JSON_parse html =
     (let price0 = (case lazada_try JSON_parse html of Inl e \<Rightarrow> None | Inr p \<Rightarrow> p);
          price1 =
            (if price0 = None then
               (let escapedMatch = pdt_price_escaped html;
                    plainMatch = pdt_price_plain html;
                    rawPrice =
                      (case escapedMatch of
                         Some g \<Rightarrow> if g \<noteq> [] then Some g else plainMatch
                       | None \<Rightarrow> plainMatch)
                in case rawPrice of
                     Some g \<Rightarrow>
                       (if g \<noteq> [] then
                          (let ds = replace_g (NotChars digits) g;
                               parsed = parseInt ds
                           in if \<not> Number_isNaN parsed then Some parsed else price0)
                        else price0)
                   | None \<Rightarrow> price0)
             else price0);
          inStock =
            (if js_test True (Lit ''Stok habis'') html then Some False
             else if js_test True (Lit ''schema.org/InStock'') html then Some True
             else None)
      in \<lparr>price = price1, inStock = inStock\<rparr>)"

section \<open>Descriptions to compare the extractors with\<close>

text \<open>
  Whether a keyword occurs in a text up to case: some window of the text, as long as the
  keyword, has the same upper case as the keyword.
\<close>

definition contains_ci :: "string \<Rightarrow> string \<Rightarrow> bool" where
  "contains_ci kw s =
     (\<exists>i\<in>set [0 ..< Suc (length s)]. map upper (take (length kw) (drop i s)) = map upper kw)"

definition letters :: "char list" where
  "letters = ''abcdefghijklmnopqrstuvwxyz'' @ ''ABCDEFGHIJKLMNOPQRSTUVWXYZ''"

text \<open>
  The currency cleanup in words: keep the digits, the decimal points and the commas, then
  drop the commas.
\<close>

definition currency_cleanup :: "string \<Rightarrow> string" where
  "currency_cleanup s = filter (\<lambda>c. c \<noteq> CHR '','') (filter (\<lambda>c. c \<in> set ''0123456789.,'') s)"

text \<open>A parsed number as a price: \<open>NaN\<close> is no price.\<close>

definition numeric :: "number \<Rightarrow> number option" where
  "numeric n = (if n = NaN then None else Some n)"

text \<open>
  A well-formed decimal numeral: digits, or digits, a point and digits. Its value is the
  integer of its digits over the power of ten of its fraction.
\<close>

definition is_numeral :: "string \<Rightarrow> bool" where
  "is_numeral s =
     (let ip = takeWhile is_digit s; r = dropWhile is_digit s
      in ip \<noteq> [] \<and> (r = [] \<or> (take 1 r = ''.'' \<and> tl r \<noteq> [] \<and> list_all is_digit (tl r))))"

definition numeral_value :: "string \<Rightarrow> rat" where
  "numeral_value s =
     of_int (digits_val (filter is_digit s)) / 10 ^ length (tl (dropWhile is_digit s))"

text \<open>
  The three strategies of the Amazon extractor, each on its own: the \<open>priceAmount\<close>
  field, the display price of the buy box, the one-time purchase price of the summary.
\<close>

definition amount_strategy :: "string \<Rightarrow> number option" where
  "amount_strategy html =
     (case priceAmount_field html of None \<Rightarrow> None | Some g \<Rightarrow> numeric (parseFloat g))"

definition buybox_strategy :: "string \<Rightarrow> number option" where
  "buybox_strategy html =
     (case buyBox_displayPrice html of None \<Rightarrow> None
      | Some g \<Rightarrow> numeric (parseFloat (currency_cleanup g)))"

definition summary_strategy :: "string \<Rightarrow> number option" where
  "summary_strategy html =
     (case summary_purchase html of None \<Rightarrow> None
      | Some g \<Rightarrow> numeric (parseFloat (currency_cleanup g)))"

text \<open>The first strategy of a chain that yields a value.\<close>

fun first_some :: "'a option list \<Rightarrow> 'a option" where
  "first_some [] = None"
| "first_some (None # xs) = first_some xs"
| "first_some (Some x # xs) = Some x"

text \<open>
  The text fallback of the Tokopedia extractor: the run of digits and dots after \<open>Rp\<close>,
  without its dots, read as an integer; no price when the run has no digit.
\<close>

definition rp_fallback :: "string \<Rightarrow> number option" where
  "rp_fallback text =
     (case rp_text text of
        None \<Rightarrow> None
      | Some g \<Rightarrow>
          (let ds = filter (\<lambda>c. c \<noteq> CHR ''.'') g
           in if ds = [] then None else Some (to_double (of_int (digits_val ds)))))"

section \<open>The orchestrator\<close>

text \<open>
  The two handlers (\<open>src/handler.ts\<close> for Tokopedia and the Amazon one) are the same code
  up to the extractor they call, the name of the stored price attribute
  (\<open>harga_terakhir\<close>, \<open>last_price\<close>) and the label in the subject lines. The model is one
  handler with the label and the extractor as parameters; the extractor returns a reading
  or lets an exception through.
\<close>

text \<open>An attribute of a scanned record, and the record with the attributes the handler reads.\<close>

datatype attr = ANum number | ABool bool | AStr string | ANull

record item =
  product_url :: "string option"
  user_id :: "string option"
  last_price :: "attr option"
  in_stock :: "attr option"

text \<open>The message of a notification, by its parts, and the commands sent to the outside.\<close>

datatype message =
    PriceDropMessage string "number option" number string string
  | RestockMessage string string string

datatype call =
    HttpGet string
  | GetUser string
  | Publish string string message
  | Update string number bool string

text \<open>What the products table holds for a key after an update.\<close>

record stored =
  stored_price :: number
  stored_in_stock :: bool
  stored_updated_at :: string

text \<open>
  The world: the products table by \<open>product_url\<close>, and the commands issued so far, in
  order.
\<close>

record world =
  products :: "string \<rightharpoonup> stored"
  calls :: "call list"

record scan_output =
  Items :: "item list option"
  LastEvaluatedKey :: "string option"

text \<open>
  The configuration and the outside: what each request answers, \<open>Inl e\<close> or \<open>Some e\<close>
  when it throws \<open>e\<close>.
\<close>

record env =
  PRODUCTS_TABLE :: string
  USERS_TABLE :: string
  SNS_PRICE_DROP_TOPIC_ARN :: string
  SNS_STOCK_RESTOCK_TOPIC_ARN :: string
  scan :: "string option \<Rightarrow> error + scan_output"
  axios_get :: "string \<Rightarrow> error + string"
  get_user_email :: "string \<Rightarrow> error + string option"
  sns_send :: "call \<Rightarrow> error option"
  ddb_update :: "call \<Rightarrow> error option"
  now :: string

subsection \<open>The change decision\<close>

record decision =
  nowInStock :: bool
  priceDropped :: bool
  restocked :: bool

text \<open>
  \<^verbatim>\<open>const nowInStock = inStock ?? prevInStock;\<close>
  \<^verbatim>\<open>const priceDropped = lastPrice != null && price < lastPrice;\<close>
  \<^verbatim>\<open>const restocked = prevInStock === false && nowInStock === true;\<close>
\<close>

definition decide :: "number option \<Rightarrow> bool \<Rightarrow> number \<Rightarrow> bool option \<Rightarrow> decision" where
  "decide lastPrice prevInStock p stock =
     (let now_in = (case stock of Some b \<Rightarrow> b | None \<Rightarrow> prevInStock);
          dropped = (case lastPrice of Some lp \<Rightarrow> js_lt p lp | None \<Rightarrow> False);
          re = (prevInStock = False \<and> now_in = True)
      in \<lparr>nowInStock = now_in, priceDropped = dropped, restocked = re\<rparr>)"

subsection \<open>One item\<close>

definition issue :: "world \<Rightarrow> call \<Rightarrow> world" where
  "issue w c = w\<lparr>calls := calls w @ [c]\<rparr>"

text \<open>The block under \<open>if (priceDropped || restocked)\<close>: the user lookup and the two sends.
  The result is the world and the exception thrown, if any.\<close>

definition notify ::
  "env \<Rightarrow> string \<Rightarrow> world \<Rightarrow> string \<Rightarrow> string \<Rightarrow> number option \<Rightarrow> number \<Rightarrow> decision
     \<Rightarrow> world \<times> error option" where
  "notify e label w productUrl userId lastPrice p d =
     (let w1 = issue w (GetUser userId)
      in case get_user_email e userId of
           Inl err \<Rightarrow> (w1, Some err)
         | Inr em \<Rightarrow>
             (let email = (case em of None \<Rightarrow> ''unknown''
                           | Some a \<Rightarrow> if a \<noteq> [] then a else ''unknown'');
                  c1 = Publish (SNS_PRICE_DROP_TOPIC_ARN e) (''Price Drop Alert ('' @ label @ '')'')
                         (PriceDropMessage productUrl lastPrice p userId email);
                  c2 = Publish (SNS_STOCK_RESTOCK_TOPIC_ARN e) (''Stock Restock Alert ('' @ label @ '')'')
                         (RestockMessage productUrl userId email);
                  r1 = (if priceDropped d \<and> SNS_PRICE_DROP_TOPIC_ARN e \<noteq> []
                        then (issue w1 c1, sns_send e c1) else (w1, None))
              in case snd r1 of
                   Some err \<Rightarrow> (fst r1, Some err)
                 | None \<Rightarrow>
                     (if restocked d \<and> SNS_STOCK_RESTOCK_TOPIC_ARN e \<noteq> []
                      then (issue (fst r1) c2, sns_send e c2) else (fst r1, None))))"

text \<open>The update of the products table that ends the \<open>try\<close> block.\<close>

definition persist :: "env \<Rightarrow> world \<Rightarrow> string \<Rightarrow> number \<Rightarrow> bool \<Rightarrow> world \<times> error option" where
  "persist e w productUrl p now_in =
     (let c = Update productUrl p now_in (now e);
          w1 = issue w c
      in case ddb_update e c of
           Some err \<Rightarrow> (w1, Some err)
         | None \<Rightarrow>
             (w1\<lparr>products := (products w1)(productUrl \<mapsto>
                    \<lparr>stored_price = p, stored_in_stock = now_in, stored_updated_at = now e\<rparr>)\<rparr>,
              None))"

text \<open>
  The \<open>try\<close> block of one item: fetch, extract, skip on a \<open>null\<close> price, decide, notify,
  persist. The result is the world and the exception that left the block, if any: one
  of a request, or one that the extractor lets through.
\<close>

definition try_item ::
  "env \<Rightarrow> string \<Rightarrow> (string \<Rightarrow> error + reading) \<Rightarrow> world \<Rightarrow> string \<Rightarrow> string \<Rightarrow> number option \<Rightarrow> bool
     \<Rightarrow> world \<times> error option" where
  "try_item e label extract w productUrl userId lastPrice prevInStock =
     (let w1 = issue w (HttpGet productUrl)
      in case axios_get e productUrl of
           Inl err \<Rightarrow> (w1, Some err)
         | Inr html \<Rightarrow>
             (case extract html of
                Inl err \<Rightarrow> (w1, Some err)
              | Inr r \<Rightarrow>
                  (case price r of
                     None \<Rightarrow> (w1, None)
                   | Some p \<Rightarrow>
                       (let d = decide lastPrice prevInStock p (inStock r);
                            r2 = (if priceDropped d \<or> restocked d
                                  then notify e label w1 productUrl userId lastPrice p d
                                  else (w1, None))
                        in case snd r2 of
                             Some err \<Rightarrow> (fst r2, Some err)
                           | None \<Rightarrow> persist e (fst r2) productUrl p (nowInStock d)))))"

text \<open>A record has its required fields when \<open>product_url\<close> and \<open>user_id\<close> are truthy.\<close>

definition truthy_str :: "string option \<Rightarrow> bool" where
  "truthy_str x = (case x of None \<Rightarrow> False | Some a \<Rightarrow> a \<noteq> [])"

text \<open>
  The body of \<open>for (const item of items)\<close> on the counter and the world. The \<open>catch\<close>
  logs the exception and the loop goes on.
\<close>

definition loop_body ::
  "env \<Rightarrow> string \<Rightarrow> (string \<Rightarrow> error + reading) \<Rightarrow> nat \<times> world \<Rightarrow> item \<Rightarrow> nat \<times> world" where
  "loop_body e label extract st it =
     (let processed = fst st + 1;
          lastPrice = (case last_price it of Some (ANum n) \<Rightarrow> Some n | _ \<Rightarrow> None);
          prevInStock = (case in_stock it of Some (ABool b) \<Rightarrow> b | _ \<Rightarrow> False)
      in case (product_url it, user_id it) of
           (Some productUrl, Some userId) \<Rightarrow>
             (if productUrl = [] \<or> userId = [] then (processed, snd st)
              else (processed,
                    fst (try_item e label extract (snd st) productUrl userId lastPrice prevInStock)))
         | _ \<Rightarrow> (processed, snd st))"

definition for_items ::
  "env \<Rightarrow> string \<Rightarrow> (string \<Rightarrow> error + reading) \<Rightarrow> nat \<times> world \<Rightarrow> item list \<Rightarrow> nat \<times> world" where
  "for_items e label extract st its = foldl (loop_body e label extract) st its"

subsection \<open>The scan loop and the handler\<close>

text \<open>
  The \<open>do ... while (ExclusiveStartKey)\<close> loop. It runs as long as the store returns a
  continuation key, so the model counts the scan requests it may still send: \<open>None\<close> is
  a pass that has not ended within that many requests. A scan that throws ends the
  handler with the exception.
\<close>

fun scan_loop ::
  "nat \<Rightarrow> env \<Rightarrow> string \<Rightarrow> (string \<Rightarrow> error + reading) \<Rightarrow> string option \<Rightarrow> nat \<times> world
     \<Rightarrow> ((error + nat) \<times> world) option" where
  "scan_loop 0 e label extract key st = None"
| "scan_loop (Suc n) e label extract key st =
     (case scan e key of
        Inl err \<Rightarrow> Some (Inl err, snd st)
      | Inr out \<Rightarrow>
          (let items = (case Items out of None \<Rightarrow> [] | Some its \<Rightarrow> its);
               st' = for_items e label extract st items
           in case LastEvaluatedKey out of
                Some k \<Rightarrow> scan_loop n e label extract (Some k) st'
              | None \<Rightarrow> Some (Inr (fst st'), snd st')))"

text \<open>The handler: the configuration check, then the pass; \<open>Inr n\<close> is the count it logs
  at the end.\<close>

definition handler ::
  "nat \<Rightarrow> env \<Rightarrow> string \<Rightarrow> (string \<Rightarrow> error + reading) \<Rightarrow> world \<Rightarrow> ((error + nat) \<times> world) option" where
  "handler fuel e label extract w =
     (if PRODUCTS_TABLE e = [] \<or> USERS_TABLE e = [] then Some (Inl ConfigError, w)
      else scan_loop fuel e label extract None (0, w))"

text \<open>The two handlers of the repository.\<close>

definition tokopedia_handler ::
  "(string \<Rightarrow> error + string) \<Rightarrow> nat \<Rightarrow> env \<Rightarrow> world \<Rightarrow> ((error + nat) \<times> world) option" where
  "tokopedia_handler cheerio_text fuel e w =
     handler fuel e ''Tokopedia'' (extractTokopediaPriceAndStock cheerio_text) w"

definition amazon_handler :: "nat \<Rightarrow> env \<Rightarrow> world \<Rightarrow> ((error + nat) \<times> world) option" where
  "amazon_handler fuel e w =
     handler fuel e ''Amazon'' (\<lambda>html. Inr (extractAmazonPriceAndStock html)) w"

text \<open>The records that the scan requests return, from a key on, within the same number
  of requests.\<close>

fun scanned :: "nat \<Rightarrow> env \<Rightarrow> string option \<Rightarrow> (error + item list) option" where
  "scanned 0 e key = None"
| "scanned (Suc n) e key =
     (case scan e key of
        Inl err \<Rightarrow> Some (Inl err)
      | Inr out \<Rightarrow>
          (let items = (case Items out of None \<Rightarrow> [] | Some its \<Rightarrow> its)
           in case LastEvaluatedKey out of
                Some k \<Rightarrow>
                  (case scanned n e (Some k) of
                     Some (Inr later) \<Rightarrow> Some (Inr (items @ later))
                   | other \<Rightarrow> other)
              | None \<Rightarrow> Some (Inr items)))"

definition has_required_fields :: "item \<Rightarrow> bool" where
  "has_required_fields it = (truthy_str (product_url it) \<and> truthy_str (user_id it))"

text \<open>The commands an item added to the world, and two kinds of command.\<close>

definition new_calls :: "world \<Rightarrow> world \<Rightarrow> call list" where
  "new_calls w w' = drop (length (calls w)) (calls w')"

fun is_update :: "call \<Rightarrow> bool" where
  "is_update (Update k p b t) = True"
| "is_update _ = False"

fun is_publish :: "call \<Rightarrow> bool" where
  "is_publish (Publish t s m) = True"
| "is_publish _ = False"

subsection \<open>Sample inputs\<close>

text \<open>
  An outside with one page of records and one product page for every URL, where every
  notification fails and every update succeeds; a record that was out of stock at 50;
  the same record without its URL; an empty table.
\<close>

definition ex_env :: "item list \<Rightarrow> string \<Rightarrow> env" where
  "ex_env its page =
     \<lparr>PRODUCTS_TABLE = ''products'', USERS_TABLE = ''users'',
      SNS_PRICE_DROP_TOPIC_ARN = ''arn:price-drop'', SNS_STOCK_RESTOCK_TOPIC_ARN = ''arn:restock'',
      scan = (\<lambda>k. Inr \<lparr>Items = Some its, LastEvaluatedKey = None\<rparr>),
      axios_get = (\<lambda>u. Inr page),
      get_user_email = (\<lambda>u. Inr (Some ''user@example.org'')),
      sns_send = (\<lambda>c. Some PublishError),
      ddb_update = (\<lambda>c. None),
      now = ''2024-01-01T00:00:00.000Z''\<rparr>"

definition ex_item :: item where
  "ex_item = \<lparr>product_url = Some ''https://shop.example/p/1'', user_id = Some ''u1'',
              last_price = Some (ANum (Num 50)), in_stock = Some (ABool False)\<rparr>"

definition ex_item_no_url :: item where
  "ex_item_no_url = \<lparr>product_url = None, user_id = Some ''u1'',
              last_price = Some (ANum (Num 50)), in_stock = Some (ABool False)\<rparr>"

definition ex_world :: world where
  "ex_world = \<lparr>products = Map.empty, calls = []\<rparr>"

definition ex_skip_env :: env where
  "ex_skip_env = ex_env [ex_item_no_url] []"

section \<open>The matcher and the extractors: properties\<close>

lemma lit_prefix_iff:
  "lit_prefix ci l s = (map (canon ci) (take (length l) s) = map (canon ci) l)"
  by (induction ci l s rule: lit_prefix.induct) auto

lemma js_test_iff: "js_test ci r s = (\<exists>i\<le>length s. rmatch ci r (drop i s) \<noteq> [])"
proof (induction s)
  case Nil
  show ?case by simp
next
  case (Cons x xs)
  have "(\<exists>i\<le>length (x # xs). rmatch ci r (drop i (x # xs)) \<noteq> [])
        = (rmatch ci r (x # xs) \<noteq> [] \<or> (\<exists>j\<le>length xs. rmatch ci r (drop j xs) \<noteq> []))"
  proof
    assume "\<exists>i\<le>length (x # xs). rmatch ci r (drop i (x # xs)) \<noteq> []"
    then obtain i where i: "i \<le> length (x # xs)" "rmatch ci r (drop i (x # xs)) \<noteq> []" by blast
    show "rmatch ci r (x # xs) \<noteq> [] \<or> (\<exists>j\<le>length xs. rmatch ci r (drop j xs) \<noteq> [])"
    proof (cases i)
      case 0
      with i show ?thesis by simp
    next
      case (Suc j)
      with i have "j \<le> length xs" "rmatch ci r (drop j xs) \<noteq> []" by simp_all
      then show ?thesis by blast
    qed
  next
    assume "rmatch ci r (x # xs) \<noteq> [] \<or> (\<exists>j\<le>length xs. rmatch ci r (drop j xs) \<noteq> [])"
    then show "\<exists>i\<le>length (x # xs). rmatch ci r (drop i (x # xs)) \<noteq> []"
    proof
      assume "rmatch ci r (x # xs) \<noteq> []"
      then have "0 \<le> length (x # xs) \<and> rmatch ci r (drop 0 (x # xs)) \<noteq> []" by simp
      then show ?thesis by blast
    next
      assume "\<exists>j\<le>length xs. rmatch ci r (drop j xs) \<noteq> []"
      then obtain j where "j \<le> length xs" "rmatch ci r (drop j xs) \<noteq> []" by blast
      then have "Suc j \<le> length (x # xs) \<and> rmatch ci r (drop (Suc j) (x # xs)) \<noteq> []" by simp
      then show ?thesis by blast
    qed
  qed
  with Cons show ?case by simp
qed

lemma js_test_Alt: "js_test ci (Alt r1 r2) s = (js_test ci r1 s \<or> js_test ci r2 s)"
  by (auto simp add: js_test_iff)

lemma canon_True: "canon True = upper"
  by (rule ext) (simp add: canon_def)

lemma js_test_Lit: "js_test True (Lit kw) s = contains_ci kw s"
proof -
  have "js_test True (Lit kw) s
          = (\<exists>i\<le>length s. map upper (take (length kw) (drop i s)) = map upper kw)"
    by (auto simp add: js_test_iff lit_prefix_iff canon_True)
  also have "\<dots> = contains_ci kw s"
  proof -
    have "set [0 ..< Suc (length s)] = {i. i \<le> length s}" by auto
    then show ?thesis unfolding contains_ci_def by blast
  qed
  finally show ?thesis .
qed

lemma contains_ci_iff:
  "contains_ci kw s = (\<exists>a m b. s = a @ m @ b \<and> map upper m = map upper kw)"
proof
  assume "contains_ci kw s"
  then obtain i where i: "map upper (take (length kw) (drop i s)) = map upper kw"
    by (auto simp add: contains_ci_def)
  have "s = take i s @ take (length kw) (drop i s) @ drop (length kw) (drop i s)"
    by (metis append_take_drop_id)
  with i show "\<exists>a m b. s = a @ m @ b \<and> map upper m = map upper kw" by blast
next
  assume "\<exists>a m b. s = a @ m @ b \<and> map upper m = map upper kw"
  then obtain a m b where s: "s = a @ m @ b" and m: "map upper m = map upper kw" by blast
  from m have "length m = length kw" by (metis length_map)
  then have "take (length kw) (drop (length a) s) = m" by (simp add: s)
  moreover have "length a \<in> set [0 ..< Suc (length s)]" by (simp add: s)
  ultimately show "contains_ci kw s" unfolding contains_ci_def using m by blast
qed

lemma amazon_stock:
  "inStock (extractAmazonPriceAndStock html)
     = (if contains_ci ''In Stock'' html then Some True
        else if contains_ci ''Currently unavailable'' html then Some False
        else None)"
  by (simp add: extractAmazonPriceAndStock_def Let_def js_test_Lit)

lemma lazada_stock:
  "inStock (extractLazadaPriceAndStock J html)
     = (if contains_ci ''Stok habis'' html then Some False
        else if contains_ci ''schema.org/InStock'' html then Some True
        else None)"
  by (simp add: extractLazadaPriceAndStock_def Let_def js_test_Lit)

lemma rmatch_suffix: "s' \<in> set (rmatch ci r s) \<Longrightarrow> \<exists>m. s = m @ s'"
proof (induction r arbitrary: s s')
  case (Lit l)
  then have "s' = drop (length l) s" by (simp split: if_splits)
  then show ?case by (metis append_take_drop_id)
next
  case (Star c)
  then obtain k where "s' = drop k s" by auto
  then show ?case by (metis append_take_drop_id)
next
  case (Plus c)
  then obtain k where "s' = drop k s" by auto
  then show ?case by (metis append_take_drop_id)
next
  case (LazyUpTo n c)
  then obtain k where "s' = drop k s" by auto
  then show ?case by (metis append_take_drop_id)
next
  case (Opt r)
  then show ?case by auto
next
  case (Seq r1 r2)
  then obtain t where "t \<in> set (rmatch ci r1 s)" "s' \<in> set (rmatch ci r2 t)" by auto
  with Seq.IH show ?case by (metis append.assoc)
next
  case (Alt r1 r2)
  then show ?case by auto
qed

lemma match_here_iff:
  "g \<in> set (match_here ci a b c t)
     = (\<exists>s1\<in>set (rmatch ci a t). \<exists>s2\<in>set (rmatch ci b s1).
          rmatch ci c s2 \<noteq> [] \<and> g = take (length s1 - length s2) s1)"
proof -
  have ex: "(\<exists>s3\<in>set xs. P) = (xs \<noteq> [] \<and> P)" for xs :: "string list" and P
    by (cases xs) auto
  have "g \<in> set (match_here ci a b c t)
     = (\<exists>s1\<in>set (rmatch ci a t). \<exists>s2\<in>set (rmatch ci b s1). \<exists>s3\<in>set (rmatch ci c s2).
          g = take (length s1 - length s2) s1)"
    by (auto simp add: match_here_def)
  then show ?thesis by (simp only: ex)
qed

lemma js_match_Some:
  "js_match ci a b c s = Some g \<Longrightarrow>
     \<exists>pre t. s = pre @ t \<and> g \<in> set (match_here ci a b c t)"
proof (induction s)
  case Nil
  then show ?case by (auto split: list.splits)
next
  case (Cons x xs)
  show ?case
  proof (cases "match_here ci a b c (x # xs)")
    case Nil
    with Cons.prems have "js_match ci a b c xs = Some g" by simp
    with Cons.IH obtain pre t where "xs = pre @ t" "g \<in> set (match_here ci a b c t)" by blast
    then have "x # xs = (x # pre) @ t \<and> g \<in> set (match_here ci a b c t)" by simp
    then show ?thesis by blast
  next
    case (Cons g' gs)
    with Cons.prems have "g = g'" by simp
    with Cons have "x # xs = [] @ (x # xs) \<and> g \<in> set (match_here ci a b c (x # xs))" by simp
    then show ?thesis by blast
  qed
qed

lemma js_match_None_iff:
  "(js_match ci a b c s = None) = (\<forall>i\<le>length s. match_here ci a b c (drop i s) = [])"
proof (induction s)
  case Nil
  show ?case by (simp split: list.splits)
next
  case (Cons x xs)
  have "(\<forall>i\<le>length (x # xs). match_here ci a b c (drop i (x # xs)) = [])
        = (match_here ci a b c (x # xs) = [] \<and> (\<forall>j\<le>length xs. match_here ci a b c (drop j xs) = []))"
  proof
    assume h: "\<forall>i\<le>length (x # xs). match_here ci a b c (drop i (x # xs)) = []"
    have "match_here ci a b c (x # xs) = []" using h[rule_format, of 0] by simp
    moreover have "match_here ci a b c (drop j xs) = []" if "j \<le> length xs" for j
      using h[rule_format, of "Suc j"] that by simp
    ultimately show "match_here ci a b c (x # xs) = [] \<and> (\<forall>j\<le>length xs. match_here ci a b c (drop j xs) = [])"
      by blast
  next
    assume h: "match_here ci a b c (x # xs) = [] \<and> (\<forall>j\<le>length xs. match_here ci a b c (drop j xs) = [])"
    show "\<forall>i\<le>length (x # xs). match_here ci a b c (drop i (x # xs)) = []"
    proof (intro allI impI)
      fix i assume "i \<le> length (x # xs)"
      then show "match_here ci a b c (drop i (x # xs)) = []"
        using h by (cases i) simp_all
    qed
  qed
  with Cons show ?case by (simp split: list.splits)
qed

lemma map_canon_False: "map (canon False) xs = xs"
  by (induction xs) (simp_all add: canon_def)

lemma lit_prefix_False: "lit_prefix False l s = (\<exists>t. s = l @ t)"
proof -
  have "lit_prefix False l s = (take (length l) s = l)"
    by (simp add: lit_prefix_iff map_canon_False)
  also have "\<dots> = (\<exists>t. s = l @ t)"
    by (metis append_eq_conv_conj append_take_drop_id)
  finally show ?thesis .
qed

lemma rmatch_Lit_False: "s1 \<in> set (rmatch False (Lit l) t) = (t = l @ s1)"
  by (auto simp add: lit_prefix_False)

lemma rmatch_Plus_first:
  assumes "s2 \<in> set (rmatch ci (Plus c) s1)"
  shows "\<exists>x m. s1 = x # m @ s2 \<and> list_all (in_cset ci c) (x # m)"
proof -
  define n where "n = length (takeWhile (in_cset ci c) s1)"
  from assms obtain k where k: "1 \<le> k" "k \<le> n" "s2 = drop k s1"
    by (auto simp add: n_def)
  have "n \<le> length s1" by (simp add: n_def length_takeWhile_le)
  have "take k s1 = take k (takeWhile (in_cset ci c) s1 @ dropWhile (in_cset ci c) s1)" by simp
  also have "\<dots> = take k (takeWhile (in_cset ci c) s1)"
    using k(2) by (simp add: n_def del: takeWhile_dropWhile_id)
  finally have tk: "take k s1 = take k (takeWhile (in_cset ci c) s1)" .
  have all: "list_all (in_cset ci c) (take k s1)"
    unfolding tk list_all_iff by (meson in_set_takeD set_takeWhileD)
  have ne: "take k s1 \<noteq> []" using k \<open>n \<le> length s1\<close> by auto
  then obtain x m where xm: "take k s1 = x # m" by (cases "take k s1") auto
  have "s1 = take k s1 @ s2" by (simp add: k(3))
  with xm all show ?thesis by auto
qed

lemma upper_mem:
  assumes "set xs \<inter> set letters = {}"
  shows "(upper c \<in> set xs) = (c \<in> set xs)"
proof (cases "map_of (zip ''abcdefghijklmnopqrstuvwxyz'' ''ABCDEFGHIJKLMNOPQRSTUVWXYZ'') c")
  case None
  then show ?thesis by (simp add: upper_def)
next
  case (Some u)
  then have m: "(c, u) \<in> set (zip ''abcdefghijklmnopqrstuvwxyz'' ''ABCDEFGHIJKLMNOPQRSTUVWXYZ'')"
    by (rule map_of_SomeD)
  have "c \<in> set letters"
    using set_zip_leftD[OF m] unfolding letters_def by (metis Un_iff set_append)
  moreover have "u \<in> set letters"
    using set_zip_rightD[OF m] unfolding letters_def by (metis Un_iff set_append)
  ultimately have "c \<notin> set xs" "u \<notin> set xs" using assms by blast+
  with Some show ?thesis by (simp add: upper_def)
qed

lemma upper_fixed:
  assumes "c \<notin> set letters"
  shows "upper c = c"
proof -
  have l: "length ''abcdefghijklmnopqrstuvwxyz'' = length ''ABCDEFGHIJKLMNOPQRSTUVWXYZ''" by simp
  have "c \<notin> set ''abcdefghijklmnopqrstuvwxyz''"
    using assms unfolding letters_def by (metis Un_iff set_append)
  then have "map_of (zip ''abcdefghijklmnopqrstuvwxyz'' ''ABCDEFGHIJKLMNOPQRSTUVWXYZ'') c = None"
    using map_of_zip_is_None [OF l, of c] by blast
  then show ?thesis by (simp add: upper_def)
qed

lemma in_cset_no_letters:
  assumes "set xs \<inter> set letters = {}"
  shows "in_cset ci (Chars xs) c = (c \<in> set xs)"
proof (cases ci)
  case False
  then show ?thesis by (simp add: map_canon_False canon_def)
next
  case True
  have "map upper xs = xs"
    by (rule map_idI) (use assms upper_fixed in blast)
  then have "in_cset True (Chars xs) c = (upper c \<in> set xs)"
    by (simp add: canon_True)
  with True show ?thesis by (simp add: upper_mem[OF assms])
qed

lemma ws_no_letters: "set ws_chars \<inter> set letters = {}"
  by (simp add: ws_chars_def letters_def)

lemma in_cset_ws: "in_cset ci ws c = is_ws c"
  unfolding ws_def is_ws_def by (rule in_cset_no_letters[OF ws_no_letters])

lemma digits_no_letters: "set digits \<inter> set letters = {}"
  by (simp add: digits_def letters_def)

lemma in_cset_digits: "in_cset ci (Chars digits) c = is_digit c"
  unfolding is_digit_def digits_def [symmetric] by (rule in_cset_no_letters[OF digits_no_letters])

lemma ilog2_nonneg: "0 \<le> ilog2 n"
  by (induction n rule: ilog2.induct) (subst ilog2.simps, simp)

lemma ilog2_bounds:
  "1 \<le> n \<Longrightarrow> 2 ^ nat (ilog2 n) \<le> n \<and> n < 2 * 2 ^ nat (ilog2 n)"
proof (induction n rule: ilog2.induct)
  case (1 n)
  show ?case
  proof (cases "n < 2")
    case True
    with "1.prems" have "n = 1" by simp
    then show ?thesis by (subst (1 2) ilog2.simps) simp
  next
    case False
    then have h: "1 \<le> n div 2" by simp
    from "1.IH"[OF False h]
    have ih: "2 ^ nat (ilog2 (n div 2)) \<le> n div 2" "n div 2 < 2 * 2 ^ nat (ilog2 (n div 2))"
      by simp_all
    have e: "ilog2 n = 1 + ilog2 (n div 2)" using False by (subst ilog2.simps) simp
    have p: "(2::int) ^ nat (1 + ilog2 (n div 2)) = 2 * 2 ^ nat (ilog2 (n div 2))"
      using ilog2_nonneg[of "n div 2"] by (simp add: nat_add_distrib)
    from ih show ?thesis unfolding e p by linarith
  qed
qed

lemma pow2_pos: "0 < pow2 e"
  by (simp add: pow2_def)

lemma pow2_nat: "0 \<le> e \<Longrightarrow> pow2 e = 2 ^ nat e"
  by (simp add: pow2_def)

lemma pow2_neg: "e \<le> 0 \<Longrightarrow> pow2 e = 1 / 2 ^ nat (- e)"
  by (cases "e = 0") (simp_all add: pow2_def)

lemma pow2_le_pow2_nat: "e \<le> 0 \<Longrightarrow> pow2 e \<le> 1"
  by (simp add: pow2_neg)

lemma round_half_even_int: "round_half_even (of_int m) = m"
  by (simp add: round_half_even_def)

lemma round_half_even_ge: "\<lfloor>x\<rfloor> \<le> round_half_even x"
  by (simp add: round_half_even_def Let_def)

lemma to_double_not_NaN: "to_double q \<noteq> NaN"
  by (simp add: to_double_def Let_def)

lemma exponent_of_ge1: "1 \<le> q \<Longrightarrow> exponent_of q = ilog2 \<lfloor>q\<rfloor>"
  by (simp add: exponent_of_def)

lemma to_double_pos:
  assumes "1 \<le> q"
  shows "js_lt (Num 0) (to_double q)"
proof -
  define e where "e = max (exponent_of q) (- 1022)"
  define ulp where "ulp = pow2 (e - 52)"
  define r where "r = of_int (round_half_even (q / ulp)) * ulp"
  have fl: "1 \<le> \<lfloor>q\<rfloor>" using assms by simp
  have e: "e = ilog2 \<lfloor>q\<rfloor>"
    using ilog2_nonneg[of "\<lfloor>q\<rfloor>"] assms by (simp add: e_def exponent_of_ge1)
  have upos: "0 < ulp" by (simp add: ulp_def pow2_pos)
  have "ulp \<le> q"
  proof (cases "e \<le> 52")
    case True
    then have "ulp \<le> 1" unfolding ulp_def by (intro pow2_le_pow2_nat) simp
    with assms show ?thesis by simp
  next
    case False
    then have "ulp = 2 ^ nat (e - 52)" by (simp add: ulp_def pow2_nat)
    also have "\<dots> \<le> 2 ^ nat e" by (rule power_increasing) simp_all
    also have "\<dots> \<le> of_int \<lfloor>q\<rfloor>"
    proof -
      have "(2::int) ^ nat e \<le> \<lfloor>q\<rfloor>" using ilog2_bounds[OF fl] e by simp
      then have "of_int ((2::int) ^ nat e) \<le> (of_int \<lfloor>q\<rfloor> :: rat)" by (simp only: of_int_le_iff)
      then show ?thesis by simp
    qed
    also have "\<dots> \<le> q" by simp
    finally show ?thesis .
  qed
  then have "1 \<le> q / ulp" using upos by (simp add: le_divide_eq)
  then have "1 \<le> \<lfloor>q / ulp\<rfloor>" by simp
  with round_half_even_ge[of "q / ulp"] have "1 \<le> round_half_even (q / ulp)" by linarith
  then have "0 < r" unfolding r_def using upos by simp
  have "to_double q = (if pow2 1024 \<le> r then PosInf else Num r)"
    using assms by (simp add: to_double_def Let_def e_def ulp_def r_def)
  with \<open>0 < r\<close> show ?thesis by simp
qed

lemma to_double_int:
  assumes "0 \<le> k" and "k < 2 ^ 53"
  shows "to_double (of_int k) = Num (of_int k)"
proof (cases "k = 0")
  case True
  then show ?thesis by (simp add: to_double_def)
next
  case False
  with assms have k1: "1 \<le> k" by simp
  define e where "e = ilog2 k"
  have e0: "0 \<le> e" unfolding e_def by (rule ilog2_nonneg)
  have "(2::int) ^ nat e \<le> k" using ilog2_bounds[OF k1] by (simp add: e_def)
  with assms(2) have lt: "(2::int) ^ nat e < 2 ^ 53" by linarith
  have "nat e < 53"
  proof (rule power_less_imp_less_exp)
    show "(1::int) < 2" by simp
    show "(2::int) ^ nat e < 2 ^ 53" by (rule lt)
  qed
  then have e52: "e \<le> 52" by simp
  have ex: "exponent_of (of_int k) = e" using k1 by (simp add: exponent_of_ge1 e_def)
  have mx: "max e (- 1022) = e" using e0 by simp
  have ulp: "pow2 (e - 52) = 1 / 2 ^ nat (52 - e)" using e52 by (simp add: pow2_neg)
  have q: "(of_int k :: rat) / pow2 (e - 52) = of_int (k * 2 ^ nat (52 - e))" by (simp add: ulp)
  have r: "of_int (round_half_even ((of_int k :: rat) / pow2 (e - 52))) * pow2 (e - 52) = of_int k"
    unfolding q round_half_even_int by (simp add: ulp)
  have small: "\<not> pow2 1024 \<le> (of_int k :: rat)"
  proof -
    have "(of_int k :: rat) < of_int (2 ^ 53)" using assms(2) by (simp only: of_int_less_iff)
    also have "\<dots> \<le> 2 ^ 1024" by simp
    finally show ?thesis by (simp add: pow2_def)
  qed
  have a: "\<bar>of_int k :: rat\<bar> = of_int k" using assms(1) by simp
  show ?thesis
    using False assms(1) small
    by (simp add: to_double_def Let_def a ex mx r del: of_int_abs)
qed

lemma is_digit_cases:
  "is_digit c = (c = CHR ''0'' \<or> c = CHR ''1'' \<or> c = CHR ''2'' \<or> c = CHR ''3'' \<or> c = CHR ''4''
     \<or> c = CHR ''5'' \<or> c = CHR ''6'' \<or> c = CHR ''7'' \<or> c = CHR ''8'' \<or> c = CHR ''9'')"
  by (auto simp add: is_digit_def)

lemma digit_not_special:
  assumes "is_digit c"
  shows "\<not> is_ws c" and "c \<noteq> CHR ''+''" and "c \<noteq> CHR ''-''" and "c \<noteq> CHR ''.''"
  using assms by (auto simp add: is_digit_cases is_ws_def ws_chars_def)

lemma isNaN_iff: "Number_isNaN n = (n = NaN)"
  by (cases n) simp_all

lemma digit_val_nonneg: "is_digit c \<Longrightarrow> 0 \<le> digit_val c"
  by (auto simp add: is_digit_cases digit_val_def)

lemma foldl_digits_nonneg:
  "list_all is_digit ds \<Longrightarrow> 0 \<le> acc \<Longrightarrow> 0 \<le> foldl (\<lambda>acc c. 10 * acc + digit_val c) acc ds"
proof (induction ds arbitrary: acc)
  case Nil
  then show ?case by simp
next
  case (Cons d ds)
  from Cons.prems have "0 \<le> 10 * acc + digit_val d" using digit_val_nonneg[of d] by simp
  with Cons show ?case by simp
qed

lemma digits_val_nonneg: "list_all is_digit ds \<Longrightarrow> 0 \<le> digits_val ds"
  unfolding digits_val_def by (rule foldl_digits_nonneg) simp_all

lemma js_lt_zero_to_double:
  assumes "0 \<le> k"
  shows "js_lt (Num 0) (to_double (of_int k)) = (0 < k)"
proof (cases "k = 0")
  case True
  then show ?thesis by (simp add: to_double_def)
next
  case False
  with assms have "1 \<le> (of_int k :: rat)" by simp
  from to_double_pos[OF this] False assms show ?thesis by simp
qed

lemma parseInt_digits:
  assumes "list_all is_digit (d # m)"
  shows "parseInt (d # m) = to_double (of_int (digits_val (d # m)))"
proof -
  from assms have d: "is_digit d" by simp
  from assms have "takeWhile is_digit (d # m) = d # m"
    by (simp add: list_all_iff takeWhile_eq_all_conv)
  then show ?thesis
    using digit_not_special[OF d]
    by (simp add: parseInt_def Let_def)
qed

lemma parseFloat_digit_first:
  assumes "is_digit d"
  shows "parseFloat (d # m) \<noteq> NaN"
proof -
  have i: "d \<noteq> CHR ''I''" using assms by (auto simp add: is_digit_cases)
  have "takeWhile is_digit (d # m) \<noteq> []" using assms by simp
  then have "unsigned_decimal (d # m) \<noteq> None"
    by (simp add: unsigned_decimal_def Let_def)
  then obtain v where "unsigned_decimal (d # m) = Some v" by blast
  then show ?thesis
    using digit_not_special[OF assms] i
    by (simp add: parseFloat_def Let_def to_double_not_NaN)
qed

lemma parseFloat_numeral:
  assumes "is_numeral s"
  shows "parseFloat s = to_double (numeral_value s)"
proof -
  define ip where "ip = takeWhile is_digit s"
  define r where "r = dropWhile is_digit s"
  have s: "s = ip @ r" by (simp add: ip_def r_def)
  from assms have ne: "ip \<noteq> []"
    and rr: "r = [] \<or> (take 1 r = ''.'' \<and> tl r \<noteq> [] \<and> list_all is_digit (tl r))"
    by (simp_all add: is_numeral_def Let_def ip_def r_def)
  from ne obtain d m where dm: "ip = d # m" by (cases ip) auto
  have "d \<in> set ip" by (simp add: dm)
  then have d: "is_digit d" unfolding ip_def by (meson set_takeWhileD)
  have sd: "s = d # (m @ r)" by (simp add: s dm)
  have i: "d \<noteq> CHR ''I''" using d by (auto simp add: is_digit_cases)
  have ipd: "filter is_digit ip = ip"
    unfolding ip_def by (simp add: filter_id_conv) (meson set_takeWhileD)
  have u: "unsigned_decimal s = Some (numeral_value s)"
  proof (cases "r = []")
    case True
    then have "s = ip" by (simp add: s)
    with ipd have f: "filter is_digit s = ip" by simp
    show ?thesis
      using True ne
      by (simp add: unsigned_decimal_def numeral_value_def Let_def ip_def[symmetric] r_def[symmetric]
            f exponent_part_def pow10_def)
  next
    case False
    with rr have r1: "take 1 r = ''.''" and r2: "tl r \<noteq> []" and r3: "list_all is_digit (tl r)"
      by simp_all
    from r1 obtain fp where fp: "r = CHR ''.'' # fp" by (cases r) auto
    with r2 r3 have fpn: "fp \<noteq> []" and fpd: "list_all is_digit fp" by simp_all
    have tw: "takeWhile is_digit fp = fp" "dropWhile is_digit fp = []"
      using fpd by (simp_all add: list_all_iff takeWhile_eq_all_conv)
    have "filter is_digit fp = fp" using fpd by (simp add: list_all_iff filter_id_conv)
    moreover have "\<not> is_digit CHR ''.''" by (simp add: is_digit_def)
    ultimately have f: "filter is_digit s = ip @ fp" using ipd by (simp add: s fp)
    show ?thesis
      using ne fpn
      by (simp add: unsigned_decimal_def numeral_value_def Let_def ip_def[symmetric] r_def[symmetric]
            f fp tw exponent_part_def pow10_def)
  qed
  show ?thesis
    using digit_not_special[OF d] i u
    by (simp add: parseFloat_def Let_def sd[symmetric]) (simp add: sd)
qed

lemma rmatch_Seq_iff:
  "s' \<in> set (rmatch ci (Seq r1 r2) s) = (\<exists>t\<in>set (rmatch ci r1 s). s' \<in> set (rmatch ci r2 t))"
  by simp

lemma rmatch_Opt_self: "s \<in> set (rmatch ci (Opt r) s)"
  by simp

lemma rmatch_Plus_nonempty:
  "(rmatch ci (Plus c) s \<noteq> []) = (\<exists>x t. s = x # t \<and> in_cset ci c x)"
proof (cases s)
  case Nil
  then show ?thesis by simp
next
  case (Cons x t)
  then show ?thesis by (cases "in_cset ci c x") simp_all
qed

lemma rmatch_Opt_iff:
  "s' \<in> set (rmatch ci (Opt r) s) = (s' \<in> set (rmatch ci r s) \<or> s' = s)"
  by auto

lemma takeWhile_digits_stop:
  assumes "list_all is_digit ds" and "r = [] \<or> \<not> is_digit (hd r)"
  shows "takeWhile is_digit (ds @ r) = ds" and "dropWhile is_digit (ds @ r) = r"
proof -
  have a: "\<forall>x\<in>set ds. is_digit x" using assms(1) by (simp add: list_all_iff)
  have b: "takeWhile is_digit r = []" "dropWhile is_digit r = r"
    using assms(2) by (cases r; simp)+
  show "takeWhile is_digit (ds @ r) = ds" using a b by simp
  show "dropWhile is_digit (ds @ r) = r" using a b by simp
qed

lemma is_numeral_digits: "list_all is_digit (x # m) \<Longrightarrow> is_numeral (x # m)"
  using takeWhile_digits_stop[of "x # m" "[]"] by (simp add: is_numeral_def Let_def)

lemma is_numeral_fraction:
  assumes "list_all is_digit (x # m)" and "list_all is_digit (y # n)"
  shows "is_numeral ((x # m) @ ''.'' @ (y # n))"
proof -
  have "\<not> is_digit CHR ''.''" by (simp add: is_digit_def)
  then have "takeWhile is_digit ((x # m) @ CHR ''.'' # y # n) = x # m"
    "dropWhile is_digit ((x # m) @ CHR ''.'' # y # n) = CHR ''.'' # y # n"
    using takeWhile_digits_stop[OF assms(1), of "CHR ''.'' # y # n"] by simp_all
  then show ?thesis using assms(2) by (simp add: is_numeral_def Let_def)
qed

lemma price_param_Some:
  assumes "price_param html = Some g"
  shows "\<exists>pre post. html = pre @ ''price='' @ g @ post \<and> is_numeral g"
proof -
  from assms obtain pre t where t: "html = pre @ t"
    and g: "g \<in> set (match_here False (Lit ''price='') price_param_grp (Lit []) t)"
    unfolding price_param_def using js_match_Some by blast
  from g obtain s1 s2 where s1: "s1 \<in> set (rmatch False (Lit ''price='') t)"
    and s2: "s2 \<in> set (rmatch False price_param_grp s1)"
    and gd: "g = take (length s1 - length s2) s1"
    unfolding match_here_iff by blast
  from s1 have t1: "t = ''price='' @ s1" by (simp only: rmatch_Lit_False)
  from s2 obtain s1' where p: "s1' \<in> set (rmatch False (Plus (Chars digits)) s1)"
    and o: "s2 \<in> set (rmatch False (Opt (Seq (Lit ''.'') (Plus (Chars digits)))) s1')"
    unfolding price_param_grp_def rmatch_Seq_iff by blast
  from rmatch_Plus_first[OF p] obtain x m where
    x: "s1 = x # m @ s1'" "list_all (in_cset False (Chars digits)) (x # m)"
    by blast
  have xd: "list_all is_digit (x # m)"
    using x(2) by (simp add: in_cset_digits list_all_iff del: in_cset.simps)
  from o have "s2 \<in> set (rmatch False (Seq (Lit ''.'') (Plus (Chars digits))) s1') \<or> s2 = s1'"
    by (simp only: rmatch_Opt_iff)
  then have "is_numeral g \<and> s1 = g @ s2"
  proof
    assume "s2 = s1'"
    then have "s1 = (x # m) @ s2" using x(1) by simp
    then have "g = x # m" unfolding gd by simp
    with xd \<open>s1 = (x # m) @ s2\<close> show ?thesis using is_numeral_digits by simp
  next
    assume "s2 \<in> set (rmatch False (Seq (Lit ''.'') (Plus (Chars digits))) s1')"
    then obtain u where u: "u \<in> set (rmatch False (Lit ''.'') s1')"
      and f: "s2 \<in> set (rmatch False (Plus (Chars digits)) u)"
      unfolding rmatch_Seq_iff by blast
    from u have u1: "s1' = ''.'' @ u" by (simp only: rmatch_Lit_False)
    from rmatch_Plus_first[OF f] obtain y n where
      y: "u = y # n @ s2" "list_all (in_cset False (Chars digits)) (y # n)"
      by blast
    have yd: "list_all is_digit (y # n)"
      using y(2) by (simp add: in_cset_digits list_all_iff del: in_cset.simps)
    define g0 where "g0 = (x # m) @ ''.'' @ (y # n)"
    have e: "s1 = g0 @ s2" using x(1) u1 y(1) by (simp add: g0_def)
    then have "g = g0" unfolding gd by simp
    with is_numeral_fraction[OF xd yd] e show ?thesis by (simp add: g0_def)
  qed
  then have "html = pre @ ''price='' @ g @ s2 \<and> is_numeral g" using t t1 by simp
  then show ?thesis by blast
qed

lemma is_numeral_first: "is_numeral g \<Longrightarrow> \<exists>d m. g = d # m \<and> is_digit d"
proof -
  assume "is_numeral g"
  then have ne: "takeWhile is_digit g \<noteq> []" by (simp add: is_numeral_def Let_def)
  then obtain d m where g: "g = d # m" by (cases g) auto
  with ne have "is_digit d" by (cases "is_digit d") simp_all
  with g show ?thesis by blast
qed

lemma price_param_occurs:
  "(price_param html \<noteq> None) = (\<exists>pre d post. html = pre @ ''price='' @ d # post \<and> is_digit d)"
proof
  assume "price_param html \<noteq> None"
  then obtain g where "price_param html = Some g" by blast
  from price_param_Some[OF this] obtain pre post where
    h: "html = pre @ ''price='' @ g @ post" "is_numeral g" by blast
  from is_numeral_first[OF h(2)] obtain d m where "g = d # m" "is_digit d" by blast
  with h(1) have "html = pre @ ''price='' @ d # (m @ post) \<and> is_digit d" by simp
  then show "\<exists>pre d post. html = pre @ ''price='' @ d # post \<and> is_digit d" by blast
next
  assume "\<exists>pre d post. html = pre @ ''price='' @ d # post \<and> is_digit d"
  then obtain pre d post where h: "html = pre @ ''price='' @ d # post" and d: "is_digit d" by blast
  define t where "t = ''price='' @ d # post"
  have 1: "d # post \<in> set (rmatch False (Lit ''price='') t)"
    by (simp only: rmatch_Lit_False t_def)
  have "rmatch False (Plus (Chars digits)) (d # post) \<noteq> []"
    unfolding rmatch_Plus_nonempty using d by (simp add: in_cset_digits del: in_cset.simps)
  then obtain s1' where s1': "s1' \<in> set (rmatch False (Plus (Chars digits)) (d # post))"
    by (meson last_in_set)
  have "s1' \<in> set (rmatch False (Opt (Seq (Lit ''.'') (Plus (Chars digits)))) s1')"
    by (rule rmatch_Opt_self)
  with s1' have "s1' \<in> set (rmatch False price_param_grp (d # post))"
    unfolding price_param_grp_def rmatch_Seq_iff by blast
  moreover have "rmatch False (Lit []) s1' \<noteq> []" by simp
  ultimately have "take (length (d # post) - length s1') (d # post)
                     \<in> set (match_here False (Lit ''price='') price_param_grp (Lit []) t)"
    unfolding match_here_iff using 1 by blast
  then have ne: "match_here False (Lit ''price='') price_param_grp (Lit []) (drop (length pre) html) \<noteq> []"
    unfolding h t_def by auto
  have "length pre \<le> length html" by (simp add: h)
  with ne have "js_match False (Lit ''price='') price_param_grp (Lit []) html \<noteq> None"
    unfolding js_match_None_iff by blast
  then show "price_param html \<noteq> None" by (simp add: price_param_def)
qed

lemma rmatch_Star_run:
  assumes "s2 \<in> set (rmatch ci (Star c) s1)"
  shows "\<exists>m. s1 = m @ s2 \<and> list_all (in_cset ci c) m"
proof -
  from assms have "\<exists>k. k \<le> length (takeWhile (in_cset ci c) s1) \<and> s2 = drop k s1"
    by (auto simp del: upt_Suc simp add: less_Suc_eq_le)
  then obtain k where k: "k \<le> length (takeWhile (in_cset ci c) s1)" "s2 = drop k s1"
    by blast
  have "take k s1 = take k (takeWhile (in_cset ci c) s1 @ dropWhile (in_cset ci c) s1)" by simp
  also have "\<dots> = take k (takeWhile (in_cset ci c) s1)" using k(1) by (simp del: takeWhile_dropWhile_id)
  finally have "list_all (in_cset ci c) (take k s1)"
    unfolding list_all_iff by (metis in_set_takeD set_takeWhileD)
  moreover have "s1 = take k s1 @ s2" by (simp add: k(2))
  ultimately show ?thesis by blast
qed

lemma rmatch_Lit_ci:
  assumes "s1 \<in> set (rmatch ci (Lit l) t)"
  shows "\<exists>m. t = m @ s1 \<and> map (canon ci) m = map (canon ci) l"
proof -
  from assms have "lit_prefix ci l t" "s1 = drop (length l) t" by (simp_all split: if_splits)
  then have "map (canon ci) (take (length l) t) = map (canon ci) l \<and> t = take (length l) t @ s1"
    by (simp add: lit_prefix_iff)
  then show ?thesis by blast
qed

lemma rmatch_LazyUpTo_len:
  assumes "s2 \<in> set (rmatch ci (LazyUpTo n c) s1)"
  shows "\<exists>m. s1 = m @ s2 \<and> length m \<le> n"
proof -
  from assms have "\<exists>k. k \<le> n \<and> s2 = drop k s1"
    by (auto simp del: upt_Suc simp add: less_Suc_eq_le)
  then obtain k where k: "k \<le> n" "s2 = drop k s1" by blast
  have "s1 = take k s1 @ s2 \<and> length (take k s1) \<le> n" using k by simp
  then show ?thesis by blast
qed

lemma rp_text_Some:
  assumes "rp_text text = Some g"
  shows "\<exists>pre w post. text = pre @ ''Rp'' @ w @ g @ post \<and> list_all is_ws w
           \<and> g \<noteq> [] \<and> list_all (\<lambda>c. is_digit c \<or> c = CHR ''.'') g"
proof -
  from assms obtain pre t where t: "text = pre @ t" and
    g: "g \<in> set (match_here False (Seq (Lit ''Rp'') (Star ws)) (Plus (Chars (digits @ ''.''))) (Lit []) t)"
    unfolding rp_text_def using js_match_Some by blast
  from g obtain s1 s2 where s1: "s1 \<in> set (rmatch False (Seq (Lit ''Rp'') (Star ws)) t)"
    and s2: "s2 \<in> set (rmatch False (Plus (Chars (digits @ ''.''))) s1)"
    and gd: "g = take (length s1 - length s2) s1"
    unfolding match_here_iff by blast
  from s1 obtain t1 where t1: "t1 \<in> set (rmatch False (Lit ''Rp'') t)"
    and w: "s1 \<in> set (rmatch False (Star ws) t1)"
    unfolding rmatch_Seq_iff by blast
  from t1 have e1: "t = ''Rp'' @ t1" by (simp only: rmatch_Lit_False)
  from rmatch_Star_run[OF w] obtain ww where ww: "t1 = ww @ s1" "list_all is_ws ww"
    unfolding in_cset_ws by blast
  from rmatch_Plus_first[OF s2] obtain x m where
    x: "s1 = x # m @ s2" "list_all (in_cset False (Chars (digits @ ''.''))) (x # m)"
    by blast
  have gx: "g = x # m" unfolding gd using x(1) by simp
  have "in_cset False (Chars (digits @ ''.'')) c = (is_digit c \<or> c = CHR ''.'')" for c
    by (auto simp add: canon_def is_digit_def digits_def)
  then have "list_all (\<lambda>c. is_digit c \<or> c = CHR ''.'') g"
    using x(2) gx by (simp add: list_all_iff del: in_cset.simps)
  moreover have "text = pre @ ''Rp'' @ ww @ g @ s2" using t e1 ww(1) x(1) gx by simp
  ultimately show ?thesis using ww(2) gx by blast
qed

lemma parseInt_Nil: "parseInt [] = NaN"
  by (simp add: parseInt_def)

lemma replace_dots: "replace_g (Chars ''.'') g = filter (\<lambda>c. c \<noteq> CHR ''.'') g"
  by (simp add: replace_g_def canon_def)

lemma tokopedia_reading:
  assumes "ct html = Inr text"
  shows "\<exists>r. extractTokopediaPriceAndStock ct html = Inr r"
  using assms by (simp add: extractTokopediaPriceAndStock_def Let_def)

lemma tokopedia_rp_fallback:
  assumes "price_param html = None" and "ct html = Inr text"
    and "extractTokopediaPriceAndStock ct html = Inr r"
  shows "price r = rp_fallback text"
proof (cases "rp_text text")
  case None
  with assms show ?thesis
    by (auto simp add: extractTokopediaPriceAndStock_def rp_fallback_def Let_def)
next
  case (Some g)
  define ds where "ds = filter (\<lambda>c. c \<noteq> CHR ''.'') g"
  from rp_text_Some[OF Some] have "list_all (\<lambda>c. is_digit c \<or> c = CHR ''.'') g" by blast
  then have "list_all is_digit ds"
    unfolding ds_def list_all_iff by auto
  have p: "parseInt ds = (if ds = [] then NaN else to_double (of_int (digits_val ds)))"
  proof (cases ds)
    case Nil
    then show ?thesis by (simp add: parseInt_Nil)
  next
    case (Cons d m)
    with \<open>list_all is_digit ds\<close> show ?thesis using parseInt_digits[of d m] by simp
  qed
  show ?thesis
    using assms Some
    by (auto simp add: extractTokopediaPriceAndStock_def rp_fallback_def Let_def replace_dots
          ds_def[symmetric] p isNaN_iff to_double_not_NaN)
qed

lemma tokopedia_param_price:
  assumes "price_param html = Some g" and "extractTokopediaPriceAndStock ct html = Inr r"
  shows "price r = Some (Math_round (parseFloat g))"
  using assms by (auto simp add: extractTokopediaPriceAndStock_def Let_def split: sum.splits)

lemma numeral_value_nonneg: "0 \<le> numeral_value g"
proof -
  have "list_all is_digit (filter is_digit g)" by (simp add: list_all_iff)
  then have "0 \<le> digits_val (filter is_digit g)" by (rule digits_val_nonneg)
  then show ?thesis by (simp add: numeral_value_def)
qed

text \<open>
  C5, as the code has it. On a Tokopedia page whose text the library returns, when a
  parameter \<open>price=<number>\<close> occurs in the raw content (the characters \<open>price=\<close>
  followed by a digit), the price is the double nearest to the number of the matched
  occurrence, rounded to the nearest whole unit with a tie going up, whatever the text
  is. It is the number itself so rounded whenever the number is a double, as every whole
  number below \<open>2 ^ 53\<close> is. The \<open>Rp\<close> text fallback (dots stripped, read as an integer)
  gives the price only when no such parameter occurs.
\<close>

theorem tokopedia_price_param_first:
  "(price_param html = Some g \<and> extractTokopediaPriceAndStock ct html = Inr r \<longrightarrow>
      (\<exists>pre post. html = pre @ ''price='' @ g @ post) \<and> is_numeral g
      \<and> price r = Some (Math_round (to_double (numeral_value g)))
      \<and> (to_double (numeral_value g) = Num (numeral_value g) \<longrightarrow>
           price r = Some (Num (of_int \<lfloor>numeral_value g + 1 / 2\<rfloor>)))
      \<and> (numeral_value g = of_int k \<and> k < 2 ^ 53 \<longrightarrow> price r = Some (Num (of_int k))))
   \<and> ((\<exists>pre d post. html = pre @ ''price='' @ d # post \<and> is_digit d) \<longrightarrow>
        (\<exists>g. price_param html = Some g)
        \<and> (extractTokopediaPriceAndStock ct html = Inr r
             \<and> extractTokopediaPriceAndStock ct' html = Inr r' \<longrightarrow> price r' = price r))
   \<and> (\<not> (\<exists>pre d post. html = pre @ ''price='' @ d # post \<and> is_digit d)
        \<and> ct html = Inr text \<and> extractTokopediaPriceAndStock ct html = Inr r \<longrightarrow>
        price r = rp_fallback text)
   \<and> (ct html = Inr text \<longrightarrow> (\<exists>r. extractTokopediaPriceAndStock ct html = Inr r))"
proof (intro conjI impI)
  assume a: "price_param html = Some g \<and> extractTokopediaPriceAndStock ct html = Inr r"
  from price_param_Some[of html g] a obtain pre post where
    h: "html = pre @ ''price='' @ g @ post" "is_numeral g" by blast
  from h(1) show "\<exists>pre post. html = pre @ ''price='' @ g @ post" by blast
  from h(2) show "is_numeral g" .
  from a have "price r = Some (Math_round (parseFloat g))"
    using tokopedia_param_price[of html g ct r] by blast
  then show p: "price r = Some (Math_round (to_double (numeral_value g)))"
    by (simp add: parseFloat_numeral[OF h(2)])
  {
    assume "to_double (numeral_value g) = Num (numeral_value g)"
    with p show "price r = Some (Num (of_int \<lfloor>numeral_value g + 1 / 2\<rfloor>))" by simp
  }
  {
    assume k: "numeral_value g = of_int k \<and> k < 2 ^ 53"
    with numeral_value_nonneg[of g] have "0 \<le> k" by simp
    with k have "to_double (of_int k) = Num (of_int k)" using to_double_int by blast
    moreover have "\<lfloor>(of_int k :: rat) + 1 / 2\<rfloor> = k" by linarith
    ultimately show "price r = Some (Num (of_int k))" using p k by simp
  }
next
  assume "\<exists>pre d post. html = pre @ ''price='' @ d # post \<and> is_digit d"
  then have "price_param html \<noteq> None" by (simp only: price_param_occurs)
  then obtain g where g: "price_param html = Some g" by blast
  then show "\<exists>g. price_param html = Some g" by blast
  assume "extractTokopediaPriceAndStock ct html = Inr r
             \<and> extractTokopediaPriceAndStock ct' html = Inr r'"
  with g show "price r' = price r"
    using tokopedia_param_price[of html g ct r] tokopedia_param_price[of html g ct' r'] by simp
next
  assume a: "\<not> (\<exists>pre d post. html = pre @ ''price='' @ d # post \<and> is_digit d)
        \<and> ct html = Inr text \<and> extractTokopediaPriceAndStock ct html = Inr r"
  then have "price_param html = None" using price_param_occurs[of html] by blast
  with a show "price r = rp_fallback text" using tokopedia_rp_fallback by blast
next
  assume "ct html = Inr text"
  then show "\<exists>r. extractTokopediaPriceAndStock ct html = Inr r"
    using tokopedia_reading[of ct html "text"] by blast
qed

theorem tokopedia_price_param_first_witness:
  "price_param ''buy?price=24479000.500000&id=1'' = Some ''24479000.500000''
   \<and> extractTokopediaPriceAndStock (\<lambda>h. Inr ''Rp5'') ''buy?price=24479000.500000&id=1''
        = Inr \<lparr>price = Some (Num 24479001), inStock = None\<rparr>
   \<and> extractTokopediaPriceAndStock (\<lambda>h. Inr ''Rp7'') ''buy?price=24479000.500000&id=1''
        = Inr \<lparr>price = Some (Num 24479001), inStock = None\<rparr>
   \<and> numeral_value ''24479000.500000'' = 48958001 / 2
   \<and> to_double (48958001 / 2) = Num (48958001 / 2)
   \<and> price_param ''buy?price=24479000.000000&id=1'' = Some ''24479000.000000''
   \<and> numeral_value ''24479000.000000'' = of_int 24479000
   \<and> extractTokopediaPriceAndStock (\<lambda>h. Inr ''Paylater'') ''buy?price=24479000.000000&id=1''
        = Inr \<lparr>price = Some (Num 24479000), inStock = None\<rparr>
   \<and> \<not> (\<exists>pre d post. ''<span>Rp30.999.000</span>'' = pre @ ''price='' @ d # post \<and> is_digit d)
   \<and> rp_fallback ''Rp30.999.000'' = Some (Num 30999000)
   \<and> extractTokopediaPriceAndStock (\<lambda>h. Inr ''Rp30.999.000'') ''<span>Rp30.999.000</span>''
        = Inr \<lparr>price = Some (Num 30999000), inStock = None\<rparr>"
proof -
  let ?h = "''buy?price=24479000.500000&id=1''"
  let ?z = "''buy?price=24479000.000000&id=1''"
  let ?ra = "\<lparr>price = Some (Num 24479001), inStock = None\<rparr>"
  have p: "price_param ?h = Some ''24479000.500000''"
    "price_param ?z = Some ''24479000.000000''" by code_simp+
  have e: "extractTokopediaPriceAndStock (\<lambda>h. Inr ''Rp5'') ?h = Inr ?ra"
    "extractTokopediaPriceAndStock (\<lambda>h. Inr ''Rp7'') ?h = Inr ?ra"
    "extractTokopediaPriceAndStock (\<lambda>h. Inr ''Paylater'') ?z
       = Inr \<lparr>price = Some (Num 24479000), inStock = None\<rparr>"
    "extractTokopediaPriceAndStock (\<lambda>h. Inr ''Rp30.999.000'') ''<span>Rp30.999.000</span>''
        = Inr \<lparr>price = Some (Num 30999000), inStock = None\<rparr>"
    by code_simp+
  have v: "numeral_value ''24479000.500000'' = 48958001 / 2"
    "numeral_value ''24479000.000000'' = of_int 24479000"
    by (simp_all add: numeral_value_def is_digit_def digits_val_def digit_val_def)
  have d: "to_double (48958001 / 2) = Num (48958001 / 2)" by code_simp
  have occ: "\<exists>pre d post. ?h = pre @ ''price='' @ d # post \<and> is_digit d"
    using price_param_occurs[of ?h] p by simp
  have n: "price_param ''<span>Rp30.999.000</span>'' = None" by code_simp
  then have no: "\<not> (\<exists>pre d post. ''<span>Rp30.999.000</span>'' = pre @ ''price='' @ d # post \<and> is_digit d)"
    using price_param_occurs[of "''<span>Rp30.999.000</span>''"] by simp
  have rp: "rp_fallback ''Rp30.999.000'' = Some (Num 30999000)" by code_simp
  note T = tokopedia_price_param_first[of ?h "''24479000.500000''" "\<lambda>h. Inr ''Rp5''" ?ra 0
      "\<lambda>h. Inr ''Rp7''" ?ra "''Rp5''"]
  from T p e have 1: "is_numeral ''24479000.500000''" by blast
  note T0 = tokopedia_price_param_first[of ?z "''24479000.000000''" "\<lambda>h. Inr ''Paylater''"
      "\<lparr>price = Some (Num 24479000), inStock = None\<rparr>" 24479000 "\<lambda>h. Inr ''Paylater''"
      "\<lparr>price = Some (Num 24479000), inStock = None\<rparr>" "''Paylater''"]
  from T0 p e have 2: "is_numeral ''24479000.000000''" by blast
  from p e v d no rp 1 2 show ?thesis by blast
qed

text \<open>
  C5, as stated, fails where the nearest double is not the number: the double nearest to
  24479000.4999999999999 is 24479000.5, so the price is 24479001, and the number
  rounded to the nearest whole unit is 24479000.
\<close>

theorem price_param_double_rounding:
  "price_param ''price=24479000.4999999999999'' = Some ''24479000.4999999999999''
   \<and> numeral_value ''24479000.4999999999999'' = 244790004999999999999 / 10000000000000
   \<and> \<lfloor>numeral_value ''24479000.4999999999999'' + 1 / 2\<rfloor> = 24479000
   \<and> extractTokopediaPriceAndStock (\<lambda>h. Inr []) ''price=24479000.4999999999999''
        = Inr \<lparr>price = Some (Num 24479001), inStock = None\<rparr>"
proof -
  have 1: "price_param ''price=24479000.4999999999999'' = Some ''24479000.4999999999999''"
    by code_simp
  have 2: "numeral_value ''24479000.4999999999999'' = 244790004999999999999 / 10000000000000"
    by (simp add: numeral_value_def is_digit_def digits_val_def digit_val_def)
  have 3: "\<lfloor>numeral_value ''24479000.4999999999999'' + 1 / 2\<rfloor> = 24479000"
    unfolding 2 by (simp add: floor_eq_iff)
  have 4: "extractTokopediaPriceAndStock (\<lambda>h. Inr []) ''price=24479000.4999999999999''
        = Inr \<lparr>price = Some (Num 24479001), inStock = None\<rparr>"
    by code_simp
  from 1 2 3 4 show ?thesis by blast
qed

lemma stok_qty_shape:
  assumes "stok_qty text = Some n"
  shows "\<exists>pre m w post. text = pre @ m @ w @ n @ post \<and> map upper m = map upper ''Stok:''
           \<and> list_all is_ws w \<and> n \<noteq> [] \<and> list_all is_digit n"
proof -
  from assms obtain pre t where t: "text = pre @ t"
    and g: "n \<in> set (match_here True (Seq (Lit ''Stok:'') (Star ws)) (Plus (Chars digits)) (Lit []) t)"
    unfolding stok_qty_def using js_match_Some by blast
  from g obtain s1 s2 where s1: "s1 \<in> set (rmatch True (Seq (Lit ''Stok:'') (Star ws)) t)"
    and s2: "s2 \<in> set (rmatch True (Plus (Chars digits)) s1)"
    and gd: "n = take (length s1 - length s2) s1"
    unfolding match_here_iff by blast
  from s1 obtain t1 where t1: "t1 \<in> set (rmatch True (Lit ''Stok:'') t)"
    and w: "s1 \<in> set (rmatch True (Star ws) t1)"
    unfolding rmatch_Seq_iff by blast
  from rmatch_Lit_ci[OF t1] obtain m where m: "t = m @ t1" "map upper m = map upper ''Stok:''"
    unfolding canon_True by blast
  from rmatch_Star_run[OF w] obtain ww where ww: "t1 = ww @ s1" "list_all is_ws ww"
    unfolding in_cset_ws by blast
  from rmatch_Plus_first[OF s2] obtain x ds where
    x: "s1 = x # ds @ s2" "list_all (in_cset True (Chars digits)) (x # ds)"
    by blast
  have n: "n = x # ds" unfolding gd using x(1) by simp
  have "list_all is_digit (x # ds)"
    using x(2) by (simp add: in_cset_digits list_all_iff del: in_cset.simps)
  moreover have "text = pre @ m @ ww @ n @ s2" using t m(1) ww(1) x(1) n by simp
  ultimately show ?thesis using m(2) ww(2) n by blast
qed

lemma contains_ci_upper: "map upper kw = map upper kw' \<Longrightarrow> contains_ci kw s = contains_ci kw' s"
proof -
  assume a: "map upper kw = map upper kw'"
  then have "length kw = length kw'" by (metis length_map)
  with a show ?thesis by (simp add: contains_ci_def)
qed

lemma habis_test:
  "js_test True habis_re text
     = (contains_ci ''stok habis'' text \<or> contains_ci ''sold out'' text \<or> contains_ci ''habis'' text)"
proof -
  have "map upper ''Stok habis'' = map upper ''stok habis''" by code_simp
  then have "contains_ci ''Stok habis'' text = contains_ci ''stok habis'' text"
    by (rule contains_ci_upper)
  then show ?thesis
    by (auto simp add: habis_re_def js_test_Alt js_test_Lit)
qed

lemma tokopedia_stock:
  assumes "extractTokopediaPriceAndStock ct html = Inr r" and "ct html = Inr text"
  shows "inStock r
     = (case stok_qty text of
          Some n \<Rightarrow> Some (0 < digits_val n)
        | None \<Rightarrow>
            if contains_ci ''stok habis'' text \<or> contains_ci ''sold out'' text
               \<or> contains_ci ''habis'' text
            then Some False else None)"
proof (cases "stok_qty text")
  case None
  with assms show ?thesis
    by (auto simp add: extractTokopediaPriceAndStock_def Let_def habis_test)
next
  case (Some n)
  from stok_qty_shape[OF Some] obtain d m where n: "n = d # m" "list_all is_digit (d # m)"
    by (cases n) auto
  then have p: "parseInt n = to_double (of_int (digits_val n))" using parseInt_digits by blast
  have "0 \<le> digits_val n" using n digits_val_nonneg by blast
  then have q: "js_lt (Num 0) (to_double (of_int (digits_val n))) = (0 < digits_val n)"
    by (rule js_lt_zero_to_double)
  from Some assms show ?thesis
    by (auto simp add: extractTokopediaPriceAndStock_def Let_def p q isNaN_iff to_double_not_NaN)
qed

text \<open>
  C6. Stock detection does not depend on the price and is case-insensitive. On Tokopedia
  the first \<open>Stok: <N>\<close> of the text decides: the stock is true exactly when \<open>N > 0\<close> (so
  \<open>N = 0\<close> gives false); without such a pattern the stock is false when one of the
  keywords \<open>stok habis\<close>, \<open>sold out\<close>, \<open>habis\<close> occurs and unknown otherwise. On Amazon
  the stock is true on \<open>In Stock\<close>, otherwise false on \<open>Currently unavailable\<close>,
  otherwise unknown.
\<close>

theorem stock_detection:
  "(ct html = Inr text \<longrightarrow>
      (\<exists>r. extractTokopediaPriceAndStock ct html = Inr r
         \<and> inStock r
            = (case stok_qty text of
                 Some n \<Rightarrow> Some (0 < digits_val n)
               | None \<Rightarrow>
                   if contains_ci ''stok habis'' text \<or> contains_ci ''sold out'' text
                      \<or> contains_ci ''habis'' text
                   then Some False else None)))
   \<and> (stok_qty text = Some n \<longrightarrow>
        (\<exists>pre m w post. text = pre @ m @ w @ n @ post \<and> map upper m = map upper ''Stok:''
           \<and> list_all is_ws w \<and> n \<noteq> [] \<and> list_all is_digit n))
   \<and> inStock (extractAmazonPriceAndStock html)
     = (if contains_ci ''In Stock'' html then Some True
        else if contains_ci ''Currently unavailable'' html then Some False
        else None)"
proof (intro conjI impI)
  assume t: "ct html = Inr text"
  from tokopedia_reading[of ct html "text"] t obtain r where r: "extractTokopediaPriceAndStock ct html = Inr r"
    by blast
  from tokopedia_stock[of ct html r "text"] r t
  show "\<exists>r. extractTokopediaPriceAndStock ct html = Inr r
         \<and> inStock r
            = (case stok_qty text of
                 Some n \<Rightarrow> Some (0 < digits_val n)
               | None \<Rightarrow>
                   if contains_ci ''stok habis'' text \<or> contains_ci ''sold out'' text
                      \<or> contains_ci ''habis'' text
                   then Some False else None)" by blast
next
  assume "stok_qty text = Some n"
  then show "\<exists>pre m w post. text = pre @ m @ w @ n @ post \<and> map upper m = map upper ''Stok:''
           \<and> list_all is_ws w \<and> n \<noteq> [] \<and> list_all is_digit n"
    by (rule stok_qty_shape)
next
  show "inStock (extractAmazonPriceAndStock html)
     = (if contains_ci ''In Stock'' html then Some True
        else if contains_ci ''Currently unavailable'' html then Some False
        else None)" by (rule amazon_stock)
qed

theorem stock_detection_witness:
  "stok_qty ''Stok: 30'' = Some ''30''
   \<and> extractTokopediaPriceAndStock (\<lambda>h. Inr ''Stok: 30'') ''<p>Stok: 30</p>''
        = Inr \<lparr>price = None, inStock = Some True\<rparr>
   \<and> stok_qty ''STOK:0 tersisa'' = Some ''0''
   \<and> extractTokopediaPriceAndStock (\<lambda>h. Inr ''STOK:0 tersisa'') []
        = Inr \<lparr>price = None, inStock = Some False\<rparr>
   \<and> extractTokopediaPriceAndStock (\<lambda>h. Inr ''Stok Habis'') []
        = Inr \<lparr>price = None, inStock = Some False\<rparr>
   \<and> extractTokopediaPriceAndStock (\<lambda>h. Inr ''Rp30.999.000'') []
        = Inr \<lparr>price = Some (Num 30999000), inStock = None\<rparr>
   \<and> inStock (extractAmazonPriceAndStock ''<span>In Stock</span>'') = Some True
   \<and> inStock (extractAmazonPriceAndStock ''<div>Currently unavailable.</div>'') = Some False"
proof -
  have q: "stok_qty ''Stok: 30'' = Some ''30''" "stok_qty ''STOK:0 tersisa'' = Some ''0''"
    "stok_qty ''Stok Habis'' = None" "stok_qty ''Rp30.999.000'' = None"
    by code_simp+
  have v: "digits_val ''30'' = 30" "digits_val ''0'' = 0"
    by (simp_all add: digits_val_def digit_val_def)
  have c: "contains_ci ''stok habis'' ''Stok Habis''"
    "\<not> contains_ci ''stok habis'' ''Rp30.999.000''" "\<not> contains_ci ''sold out'' ''Rp30.999.000''"
    "\<not> contains_ci ''habis'' ''Rp30.999.000''"
    "contains_ci ''In Stock'' ''<span>In Stock</span>''"
    "\<not> contains_ci ''In Stock'' ''<div>Currently unavailable.</div>''"
    "contains_ci ''Currently unavailable'' ''<div>Currently unavailable.</div>''"
    by code_simp+
  obtain r1 where r1: "extractTokopediaPriceAndStock (\<lambda>h. Inr ''Stok: 30'') ''<p>Stok: 30</p>'' = Inr r1"
    "inStock r1 = Some True"
    using stock_detection[of "\<lambda>h. Inr ''Stok: 30''" "''<p>Stok: 30</p>''" "''Stok: 30''" "''30''"] q v
    by auto
  obtain r2 where r2: "extractTokopediaPriceAndStock (\<lambda>h. Inr ''STOK:0 tersisa'') [] = Inr r2"
    "inStock r2 = Some False"
    using stock_detection[of "\<lambda>h. Inr ''STOK:0 tersisa''" "[]" "''STOK:0 tersisa''" "''0''"] q v
    by auto
  obtain r3 where r3: "extractTokopediaPriceAndStock (\<lambda>h. Inr ''Stok Habis'') [] = Inr r3"
    "inStock r3 = Some False"
    using stock_detection[of "\<lambda>h. Inr ''Stok Habis''" "[]" "''Stok Habis''" "[]"] q c
    by auto
  obtain r4 where r4: "extractTokopediaPriceAndStock (\<lambda>h. Inr ''Rp30.999.000'') [] = Inr r4"
    "inStock r4 = None"
    using stock_detection[of "\<lambda>h. Inr ''Rp30.999.000''" "[]" "''Rp30.999.000''" "[]"] q c
    by auto
  have x: "extractTokopediaPriceAndStock (\<lambda>h. Inr ''Stok: 30'') ''<p>Stok: 30</p>''
        = Inr \<lparr>price = None, inStock = Some True\<rparr>"
    "extractTokopediaPriceAndStock (\<lambda>h. Inr ''STOK:0 tersisa'') []
        = Inr \<lparr>price = None, inStock = Some False\<rparr>"
    "extractTokopediaPriceAndStock (\<lambda>h. Inr ''Stok Habis'') []
        = Inr \<lparr>price = None, inStock = Some False\<rparr>"
    "extractTokopediaPriceAndStock (\<lambda>h. Inr ''Rp30.999.000'') []
        = Inr \<lparr>price = Some (Num 30999000), inStock = None\<rparr>"
    by code_simp+
  have 5: "inStock (extractAmazonPriceAndStock ''<span>In Stock</span>'') = Some True"
    using stock_detection[of "\<lambda>h. Inr []" "''<span>In Stock</span>''" "[]" "[]"] c by simp
  have 6: "inStock (extractAmazonPriceAndStock ''<div>Currently unavailable.</div>'') = Some False"
    using stock_detection[of "\<lambda>h. Inr []" "''<div>Currently unavailable.</div>''" "[]" "[]"] c by simp
  from q x r1 r2 r3 r4 5 6 show ?thesis by blast
qed

text \<open>
  C10. A page with both markers, up to case: the Amazon extractor answers in stock when
  \<open>In Stock\<close> and \<open>Currently unavailable\<close> both occur, the Lazada extractor answers out
  of stock when \<open>Stok habis\<close> and \<open>schema.org/InStock\<close> both occur.
\<close>

theorem stock_conflict_order:
  "(contains_ci ''In Stock'' html \<and> contains_ci ''Currently unavailable'' html \<longrightarrow>
      inStock (extractAmazonPriceAndStock html) = Some True)
   \<and> (contains_ci ''Stok habis'' html \<and> contains_ci ''schema.org/InStock'' html \<longrightarrow>
      inStock (extractLazadaPriceAndStock JSON_parse html) = Some False)"
  by (simp add: amazon_stock lazada_stock)

theorem stock_conflict_order_witness:
  "contains_ci ''In Stock'' ''<b>IN STOCK</b> <i>currently unavailable</i>''
   \<and> contains_ci ''Currently unavailable'' ''<b>IN STOCK</b> <i>currently unavailable</i>''
   \<and> inStock (extractAmazonPriceAndStock ''<b>IN STOCK</b> <i>currently unavailable</i>'') = Some True
   \<and> contains_ci ''Stok habis'' ''href=http://schema.org/InStock STOK HABIS''
   \<and> contains_ci ''schema.org/InStock'' ''href=http://schema.org/InStock STOK HABIS''
   \<and> inStock (extractLazadaPriceAndStock (\<lambda>s. Inl SyntaxError) ''href=http://schema.org/InStock STOK HABIS'')
        = Some False"
proof -
  have a: "contains_ci ''In Stock'' ''<b>IN STOCK</b> <i>currently unavailable</i>''"
    "contains_ci ''Currently unavailable'' ''<b>IN STOCK</b> <i>currently unavailable</i>''"
    "contains_ci ''Stok habis'' ''href=http://schema.org/InStock STOK HABIS''"
    "contains_ci ''schema.org/InStock'' ''href=http://schema.org/InStock STOK HABIS''"
    by code_simp+
  from stock_conflict_order[of "''<b>IN STOCK</b> <i>currently unavailable</i>''" "\<lambda>s. Inl SyntaxError"]
    stock_conflict_order[of "''href=http://schema.org/InStock STOK HABIS''" "\<lambda>s. Inl SyntaxError"] a
  show ?thesis by blast
qed

lemma replace_cleanup:
  "replace_g (Chars '','') (replace_g (NotChars (digits @ ''.,'')) g) = currency_cleanup g"
  by (simp add: replace_g_def currency_cleanup_def canon_def digits_def)

lemma amazon_chain:
  "price (extractAmazonPriceAndStock html)
     = first_some [amount_strategy html, buybox_strategy html, summary_strategy html]"
proof -
  have n: "(if \<not> Number_isNaN x then Some x else None) = numeric x" for x
    by (simp add: numeric_def isNaN_iff)
  have a: "(case priceAmount_field html of None \<Rightarrow> None
            | Some g \<Rightarrow> let parsed = parseFloat g in if \<not> Number_isNaN parsed then Some parsed else None)
           = amount_strategy html"
    by (simp add: amount_strategy_def Let_def n split: option.splits)
  have b: "(case buyBox_displayPrice html of None \<Rightarrow> None
            | Some displayPrice \<Rightarrow>
                let cleaned = replace_g (NotChars (digits @ ''.,'')) displayPrice;
                    normalized = replace_g (Chars '','') cleaned;
                    parsed = parseFloat normalized
                in if \<not> Number_isNaN parsed then Some parsed else None)
           = buybox_strategy html"
    by (simp add: buybox_strategy_def Let_def n replace_cleanup split: option.splits)
  have c: "(case summary_purchase html of None \<Rightarrow> None
            | Some rawPrice \<Rightarrow>
                let cleaned = replace_g (NotChars (digits @ ''.,'')) rawPrice;
                    normalized = replace_g (Chars '','') cleaned;
                    parsed = parseFloat normalized
                in if \<not> Number_isNaN parsed then Some parsed else None)
           = summary_strategy html"
    by (simp add: summary_strategy_def Let_def n replace_cleanup split: option.splits)
  show ?thesis
  proof (cases "amount_strategy html")
    case (Some v)
    then show ?thesis
      unfolding extractAmazonPriceAndStock_def by (simp add: a Let_def)
  next
    case None
    note A = None
    show ?thesis
    proof (cases "buybox_strategy html")
      case (Some v)
      then show ?thesis
        unfolding extractAmazonPriceAndStock_def using A b[symmetric]
        by (simp add: a Let_def split: option.splits)
    next
      case None
      then show ?thesis
        unfolding extractAmazonPriceAndStock_def using A b[symmetric] c[symmetric]
        by (simp add: a Let_def split: option.splits)
    qed
  qed
qed

lemma summary_window:
  assumes "summary_purchase html = Some r"
  shows "\<exists>pre gap w post. html = pre @ ''Product Summary:'' @ gap @ ''One-time purchase:'' @ w @ r @ post
           \<and> length gap \<le> 200"
proof -
  let ?a = "seqs [Lit ''Product Summary:'', LazyUpTo 200 anychar, Lit ''One-time purchase:'', Star ws]"
  from assms obtain pre t where t: "html = pre @ t"
    and g: "r \<in> set (match_here False ?a (Plus (NotChars [CHR ''<'', CHR 0x0A])) (Lit []) t)"
    unfolding summary_purchase_def using js_match_Some by blast
  from g obtain s1 s2 where s1: "s1 \<in> set (rmatch False ?a t)"
    and s2: "s2 \<in> set (rmatch False (Plus (NotChars [CHR ''<'', CHR 0x0A])) s1)"
    and gd: "r = take (length s1 - length s2) s1"
    unfolding match_here_iff by blast
  have sq: "?a = Seq (Lit ''Product Summary:'') (Seq (LazyUpTo 200 anychar)
              (Seq (Lit ''One-time purchase:'') (Star ws)))" by simp
  from s1 obtain t1 t2 t3 where
    t1: "t1 \<in> set (rmatch False (Lit ''Product Summary:'') t)"
    and t2: "t2 \<in> set (rmatch False (LazyUpTo 200 anychar) t1)"
    and t3: "t3 \<in> set (rmatch False (Lit ''One-time purchase:'') t2)"
    and t4: "s1 \<in> set (rmatch False (Star ws) t3)"
    unfolding sq rmatch_Seq_iff by blast
  from t1 have e1: "t = ''Product Summary:'' @ t1" by (simp only: rmatch_Lit_False)
  from rmatch_LazyUpTo_len[OF t2] obtain gap where gap: "t1 = gap @ t2" "length gap \<le> 200" by blast
  from t3 have e3: "t2 = ''One-time purchase:'' @ t3" by (simp only: rmatch_Lit_False)
  from rmatch_suffix[OF t4] obtain w where w: "t3 = w @ s1" by blast
  from rmatch_suffix[OF s2] obtain m where m: "s1 = m @ s2" by blast
  then have "r = m" unfolding gd by simp
  then have "html = pre @ ''Product Summary:'' @ gap @ ''One-time purchase:'' @ w @ r @ s2"
    using t e1 gap(1) e3 w m by simp
  with gap(2) show ?thesis by blast
qed

lemma first_some_single: "first_some [x] = x"
  by (cases x) simp_all

text \<open>
  C4. The Amazon price is the first of three strategies that yields a number, in this
  order: the \<open>priceAmount\<close> field, the display price of the buy box, the one-time
  purchase price after \<open>Product Summary:\<close>, found at most 200 characters further. So a
  numeric \<open>priceAmount\<close> is the price whatever the buy box shows.
\<close>

theorem amazon_fallback_chain:
  "price (extractAmazonPriceAndStock html)
     = first_some [amount_strategy html, buybox_strategy html, summary_strategy html]
   \<and> (priceAmount_field html = Some g \<and> parseFloat g = Num v \<longrightarrow>
        price (extractAmazonPriceAndStock html) = Some (Num v))
   \<and> (summary_purchase html = Some r \<longrightarrow>
        (\<exists>pre gap w post.
            html = pre @ ''Product Summary:'' @ gap @ ''One-time purchase:'' @ w @ r @ post
            \<and> length gap \<le> 200))"
proof (intro conjI impI)
  show "price (extractAmazonPriceAndStock html)
     = first_some [amount_strategy html, buybox_strategy html, summary_strategy html]"
    by (rule amazon_chain)
next
  assume "priceAmount_field html = Some g \<and> parseFloat g = Num v"
  then have "amount_strategy html = Some (Num v)"
    by (simp add: amount_strategy_def numeric_def)
  then show "price (extractAmazonPriceAndStock html) = Some (Num v)"
    by (simp add: amazon_chain)
next
  assume "summary_purchase html = Some r"
  then show "\<exists>pre gap w post.
      html = pre @ ''Product Summary:'' @ gap @ ''One-time purchase:'' @ w @ r @ post \<and> length gap \<le> 200"
    by (rule summary_window)
qed

theorem amazon_fallback_chain_witness:
  \<open>priceAmount_field ''{"desktop_buybox_group_1":[{"displayPrice":"USD 31.00","priceAmount":29.5}]}'' = Some ''29.5''
   \<and> buyBox_displayPrice ''{"desktop_buybox_group_1":[{"displayPrice":"USD 31.00","priceAmount":29.5}]}'' = Some ''USD 31.00''
   \<and> parseFloat ''29.5'' = Num (59 / 2)
   \<and> price (extractAmazonPriceAndStock ''{"desktop_buybox_group_1":[{"displayPrice":"USD 31.00","priceAmount":29.5}]}'')
        = Some (Num (59 / 2))
   \<and> summary_purchase ''<div>Product Summary: Best bottle ever. One-time purchase: IDR 501,282.85</div>''
        = Some ''IDR 501,282.85''
   \<and> (\<exists>pre gap w post.
         ''<div>Product Summary: Best bottle ever. One-time purchase: IDR 501,282.85</div>''
           = pre @ ''Product Summary:'' @ gap @ ''One-time purchase:'' @ w @ ''IDR 501,282.85'' @ post
         \<and> length gap \<le> 200)
   \<and> price (extractAmazonPriceAndStock ''<div>Product Summary: Best bottle ever. One-time purchase: IDR 501,282.85</div>'')
        = Some (to_double (50128285 / 100))\<close>
proof -
  let ?h = \<open>''{"desktop_buybox_group_1":[{"displayPrice":"USD 31.00","priceAmount":29.5}]}''\<close>
  let ?s = "''<div>Product Summary: Best bottle ever. One-time purchase: IDR 501,282.85</div>''"
  have a: "priceAmount_field ?h = Some ''29.5''" by code_simp
  have b: "buyBox_displayPrice ?h = Some ''USD 31.00''" by code_simp
  have f: "parseFloat ''29.5'' = Num (59 / 2)" by code_simp
  from amazon_fallback_chain[of ?h "''29.5''" "59 / 2" "[]"] a f
  have 1: "price (extractAmazonPriceAndStock ?h) = Some (Num (59 / 2))" by blast
  have c: "summary_purchase ?s = Some ''IDR 501,282.85''" by code_simp
  from amazon_fallback_chain[of ?s "[]" 0 "''IDR 501,282.85''"] c
  have 2: "\<exists>pre gap w post. ?s = pre @ ''Product Summary:'' @ gap @ ''One-time purchase:'' @ w @ ''IDR 501,282.85'' @ post
         \<and> length gap \<le> 200" by blast
  have s: "amount_strategy ?s = None" "buybox_strategy ?s = None" by code_simp+
  have cl: "currency_cleanup ''IDR 501,282.85'' = ''501282.85''" by (simp add: currency_cleanup_def)
  have n: "is_numeral ''501282.85''" by (simp add: is_numeral_def is_digit_def)
  have v: "numeral_value ''501282.85'' = 50128285 / 100"
    by (simp add: numeral_value_def is_digit_def digits_val_def digit_val_def)
  have "summary_strategy ?s = Some (to_double (50128285 / 100))"
    by (simp add: summary_strategy_def c cl parseFloat_numeral[OF n] v numeric_def to_double_not_NaN)
  with amazon_fallback_chain[of ?s "[]" 0 "[]"] s
  have 3: "price (extractAmazonPriceAndStock ?s) = Some (to_double (50128285 / 100))" by simp
  from a b f 1 c 2 3 show ?thesis by blast
qed






lemma numeric_to_double: "numeric (to_double q) = Some (to_double q)"
  by (simp add: numeric_def to_double_not_NaN)

lemma in_cset_digdot: "in_cset False (Chars (digits @ ''.'')) c = (is_digit c \<or> c = CHR ''.'')"
  by (auto simp add: canon_def is_digit_def digits_def)

lemma parseFloat_dots:
  assumes "list_all (\<lambda>c. c = CHR ''.'') u"
  shows "parseFloat u = NaN"
proof (cases u)
  case Nil
  then show ?thesis by (simp add: parseFloat_def unsigned_decimal_def)
next
  case (Cons c cs)
  with assms have c: "c = CHR ''.''" and cs: "list_all (\<lambda>c. c = CHR ''.'') cs" by simp_all
  have "takeWhile is_digit cs = []"
    using cs by (cases cs) (simp_all add: is_digit_def)
  then show ?thesis
    unfolding Cons c
    by (simp add: parseFloat_def unsigned_decimal_def is_ws_def ws_chars_def is_digit_def)
qed

lemma cleanup_no_digit:
  assumes "\<not> list_ex is_digit (currency_cleanup g)"
  shows "parseFloat (currency_cleanup g) = NaN"
proof -
  have "c \<in> set (currency_cleanup g) \<Longrightarrow> is_digit c \<or> c = CHR ''.''" for c
    by (auto simp add: currency_cleanup_def is_digit_def)
  with assms have "list_all (\<lambda>c. c = CHR ''.'') (currency_cleanup g)"
    unfolding list_all_iff list_ex_iff by blast
  then show ?thesis by (rule parseFloat_dots)
qed

lemma filter_dots:
  assumes "list_all (\<lambda>c. is_digit c \<or> c = CHR ''.'') t"
  shows "filter (\<lambda>c. c \<noteq> CHR ''.'') t = filter is_digit t"
proof (rule filter_cong[OF refl])
  fix c assume "c \<in> set t"
  with assms have "is_digit c \<or> c = CHR ''.''" unfolding list_all_iff by blast
  moreover have "\<not> is_digit CHR ''.''" by (simp add: is_digit_def)
  ultimately show "(c \<noteq> CHR ''.'') = is_digit c" by blast
qed

lemma rp_fallback_value:
  assumes "rp_text text = Some t"
  shows "rp_fallback text
     = (if list_ex is_digit t then Some (to_double (of_int (digits_val (filter is_digit t)))) else None)"
proof -
  from rp_text_Some[OF assms] have d: "list_all (\<lambda>c. is_digit c \<or> c = CHR ''.'') t" by blast
  have "(filter is_digit t = []) = (\<not> list_ex is_digit t)"
    by (simp add: filter_empty_conv list_ex_iff)
  then show ?thesis using assms by (simp add: rp_fallback_def Let_def filter_dots[OF d])
qed

lemma match_here_hd:
  assumes "rmatch ci a s = s1 # ra" and "rmatch ci b s1 = s2 # rb" and "rmatch ci c s2 \<noteq> []"
  shows "\<exists>rest. match_here ci a b c s = take (length s1 - length s2) s1 # rest"
proof -
  from assms(3) obtain x xs where "rmatch ci c s2 = x # xs" by (cases "rmatch ci c s2") auto
  then show ?thesis by (simp add: match_here_def assms(1,2))
qed

lemma js_match_hd:
  assumes "match_here ci a b c s = g # rest"
  shows "js_match ci a b c s = Some g"
  using assms by (cases s) simp_all

lemma rp_text_skip:
  assumes "CHR ''R'' \<notin> set pre"
  shows "rp_text (pre @ t) = rp_text t"
  using assms by (induction pre) (simp_all add: rp_text_def match_here_def canon_def)

lemma rmatch_Plus_hd:
  assumes "takeWhile (in_cset ci c) s = x # m"
  shows "\<exists>rest. rmatch ci (Plus c) s = dropWhile (in_cset ci c) s # rest"
proof -
  have "rmatch ci (Plus c) s
      = drop (length (takeWhile (in_cset ci c) s)) s # map (\<lambda>k. drop k s) (rev [1 ..< length (takeWhile (in_cset ci c) s)])"
    using assms by simp
  then show ?thesis by (simp add: dropWhile_eq_drop)
qed

lemma rp_text_at:
  assumes pre: "CHR ''R'' \<notin> set pre" and w: "list_all is_ws w"
    and t: "list_all (\<lambda>c. is_digit c \<or> c = CHR ''.'') t" and ne: "t \<noteq> []"
    and post: "post = [] \<or> \<not> (is_digit (hd post) \<or> hd post = CHR ''.'')"
  shows "rp_text (pre @ ''Rp'' @ w @ t @ post) = Some t"
proof -
  let ?dd = "Chars (digits @ ''.'')"
  from ne obtain x m where xm: "t = x # m" by (cases t) auto
  with t have x: "is_digit x \<or> x = CHR ''.''" by simp
  then have nws: "\<not> is_ws x" by (auto simp add: is_digit_def is_ws_def ws_chars_def)
  have tw: "takeWhile (in_cset False ws) (w @ t @ post) = w"
    using w nws by (simp add: in_cset_ws xm list_all_iff del: in_cset.simps)
  have "rmatch False (Star ws) (w @ t @ post)
      = drop (length w) (w @ t @ post) # map (\<lambda>k. drop k (w @ t @ post)) (rev [0 ..< length w])"
    by (simp only: rmatch.simps tw upt_Suc rev_append rev.simps map_append list.map) simp
  then have a: "rmatch False (Seq (Lit ''Rp'') (Star ws)) (''Rp'' @ w @ t @ post)
      = (t @ post) # map (\<lambda>k. drop k (w @ t @ post)) (rev [0 ..< length w])"
    by (simp add: canon_def)
  have "takeWhile (in_cset False ?dd) post = []"
    using post by (cases post) (simp_all add: in_cset_digdot del: in_cset.simps)
  moreover from this have "dropWhile (in_cset False ?dd) post = post"
    using takeWhile_dropWhile_id[of "in_cset False ?dd" post] by (simp del: takeWhile_dropWhile_id)
  ultimately have td: "takeWhile (in_cset False ?dd) (t @ post) = x # m"
    "dropWhile (in_cset False ?dd) (t @ post) = post"
    using t by (simp_all add: in_cset_digdot list_all_iff xm dropWhile_append del: in_cset.simps)
  from rmatch_Plus_hd[OF td(1)] obtain rb where
    b: "rmatch False (Plus ?dd) (t @ post) = post # rb" unfolding td(2) by blast
  have c: "rmatch False (Lit []) post \<noteq> []" by simp
  from match_here_hd[OF a b c] obtain rest where
    "match_here False (Seq (Lit ''Rp'') (Star ws)) (Plus ?dd) (Lit []) (''Rp'' @ w @ t @ post) = t # rest"
    by auto
  then have "rp_text (''Rp'' @ w @ t @ post) = Some t"
    unfolding rp_text_def by (rule js_match_hd)
  then show ?thesis using rp_text_skip[OF pre] by simp
qed

text \<open>
  C3, as the code has it. The cleanup differs by marketplace. The Amazon display price
  and summary price keep their digits, decimal points and commas, lose the commas and are
  parsed as a decimal number; the Tokopedia text fallback takes the run of digits and
  dots after \<open>Rp\<close>, drops the dots and parses an integer. A valid formatted string gives
  its numeric value, as the number nearest to it: on Amazon when what the cleanup leaves
  is a decimal numeral, on Tokopedia when the run has a digit. What the cleanup leaves
  without any digit gives no price from that strategy. On the examples: \<open>Rp30.999.000\<close>
  gives 30999000, the display price \<open>IDR 501,282.85\<close> gives 501282.85 and the field
  \<open>priceAmount: 29.99\<close> gives 29.99.
\<close>

theorem currency_cleanup_by_marketplace:
  \<open>(priceAmount_field html = Some a \<and> is_numeral a \<longrightarrow>
      price (extractAmazonPriceAndStock html) = Some (to_double (numeral_value a)))
   \<and> (priceAmount_field html = None \<and> buyBox_displayPrice html = Some g
        \<and> is_numeral (currency_cleanup g) \<longrightarrow>
      price (extractAmazonPriceAndStock html) = Some (to_double (numeral_value (currency_cleanup g))))
   \<and> (priceAmount_field html = None \<and> buyBox_displayPrice html = None \<and> summary_purchase html = Some s
        \<and> is_numeral (currency_cleanup s) \<longrightarrow>
      price (extractAmazonPriceAndStock html) = Some (to_double (numeral_value (currency_cleanup s))))
   \<and> (priceAmount_field html = None \<and> buyBox_displayPrice html = Some g
        \<and> \<not> list_ex is_digit (currency_cleanup g) \<longrightarrow>
      price (extractAmazonPriceAndStock html) = summary_strategy html)
   \<and> (priceAmount_field html = None \<and> buyBox_displayPrice html = None \<and> summary_purchase html = Some s
        \<and> \<not> list_ex is_digit (currency_cleanup s) \<longrightarrow>
      price (extractAmazonPriceAndStock html) = None)
   \<and> (price_param html = None \<and> ct html = Inr text \<and> rp_text text = Some t
        \<and> extractTokopediaPriceAndStock ct html = Inr r \<longrightarrow>
      (\<exists>pre w post. text = pre @ ''Rp'' @ w @ t @ post \<and> list_all is_ws w)
      \<and> list_all (\<lambda>c. is_digit c \<or> c = CHR ''.'') t
      \<and> price r = (if list_ex is_digit t
                   then Some (to_double (of_int (digits_val (filter is_digit t)))) else None)
      \<and> (list_ex is_digit t \<and> digits_val (filter is_digit t) < 2 ^ 53 \<longrightarrow>
           price r = Some (Num (of_int (digits_val (filter is_digit t))))))
   \<and> (price_param html = None \<and> ct html = Inr (pre @ ''Rp'' @ w @ t @ post)
        \<and> CHR ''R'' \<notin> set pre \<and> list_all is_ws w
        \<and> list_all (\<lambda>c. is_digit c \<or> c = CHR ''.'') t \<and> list_ex is_digit t
        \<and> (post = [] \<or> \<not> (is_digit (hd post) \<or> hd post = CHR ''.''))
        \<and> extractTokopediaPriceAndStock ct html = Inr r \<longrightarrow>
      price r = Some (to_double (of_int (digits_val (filter is_digit t)))))
   \<and> extractTokopediaPriceAndStock (\<lambda>h. Inr ''Rp30.999.000'') ''<span>Rp30.999.000</span>''
        = Inr \<lparr>price = Some (Num 30999000), inStock = None\<rparr>
   \<and> price (extractAmazonPriceAndStock ''{"desktop_buybox_group_1":[{"displayPrice":"IDR 501,282.85"}]}'')
        = Some (to_double (50128285 / 100))
   \<and> price (extractAmazonPriceAndStock ''{"priceAmount":29.99}'') = Some (to_double (2999 / 100))\<close>
proof (intro conjI impI)
  assume "priceAmount_field html = Some a \<and> is_numeral a"
  then show "price (extractAmazonPriceAndStock html) = Some (to_double (numeral_value a))"
    by (simp add: amazon_chain amount_strategy_def parseFloat_numeral numeric_to_double)
next
  assume "priceAmount_field html = None \<and> buyBox_displayPrice html = Some g
        \<and> is_numeral (currency_cleanup g)"
  then show "price (extractAmazonPriceAndStock html) = Some (to_double (numeral_value (currency_cleanup g)))"
    by (simp add: amazon_chain amount_strategy_def buybox_strategy_def parseFloat_numeral
          numeric_to_double)
next
  assume "priceAmount_field html = None \<and> buyBox_displayPrice html = None \<and> summary_purchase html = Some s
        \<and> is_numeral (currency_cleanup s)"
  then show "price (extractAmazonPriceAndStock html) = Some (to_double (numeral_value (currency_cleanup s)))"
    by (simp add: amazon_chain amount_strategy_def buybox_strategy_def summary_strategy_def
          parseFloat_numeral numeric_to_double)
next
  assume "priceAmount_field html = None \<and> buyBox_displayPrice html = Some g
        \<and> \<not> list_ex is_digit (currency_cleanup g)"
  then show "price (extractAmazonPriceAndStock html) = summary_strategy html"
    by (simp add: amazon_chain amount_strategy_def buybox_strategy_def cleanup_no_digit
          numeric_def first_some_single)
next
  assume "priceAmount_field html = None \<and> buyBox_displayPrice html = None \<and> summary_purchase html = Some s
        \<and> \<not> list_ex is_digit (currency_cleanup s)"
  then show "price (extractAmazonPriceAndStock html) = None"
    by (simp add: amazon_chain amount_strategy_def buybox_strategy_def summary_strategy_def
          cleanup_no_digit numeric_def)
next
  assume a: "price_param html = None \<and> ct html = Inr text \<and> rp_text text = Some t
        \<and> extractTokopediaPriceAndStock ct html = Inr r"
  then have p: "price r = rp_fallback text"
    using tokopedia_rp_fallback[of html ct "text" r] by blast
  from a rp_text_Some[of "text" t]
  show "\<exists>pre w post. text = pre @ ''Rp'' @ w @ t @ post \<and> list_all is_ws w" by blast
  from a rp_text_Some[of "text" t]
  show "list_all (\<lambda>c. is_digit c \<or> c = CHR ''.'') t" by blast
  from a p show v: "price r = (if list_ex is_digit t
                   then Some (to_double (of_int (digits_val (filter is_digit t)))) else None)"
    by (simp add: rp_fallback_value)
  assume "list_ex is_digit t \<and> digits_val (filter is_digit t) < 2 ^ 53"
  moreover have "0 \<le> digits_val (filter is_digit t)"
    by (rule digits_val_nonneg) (simp add: list_all_iff)
  ultimately show "price r = Some (Num (of_int (digits_val (filter is_digit t))))"
    using v by (simp add: to_double_int)
next
  assume a: "price_param html = None \<and> ct html = Inr (pre @ ''Rp'' @ w @ t @ post)
        \<and> CHR ''R'' \<notin> set pre \<and> list_all is_ws w
        \<and> list_all (\<lambda>c. is_digit c \<or> c = CHR ''.'') t \<and> list_ex is_digit t
        \<and> (post = [] \<or> \<not> (is_digit (hd post) \<or> hd post = CHR ''.''))
        \<and> extractTokopediaPriceAndStock ct html = Inr r"
  then have "t \<noteq> []" by auto
  with a have m: "rp_text (pre @ ''Rp'' @ w @ t @ post) = Some t"
    using rp_text_at[of pre w t post] by blast
  from a have "price r = rp_fallback (pre @ ''Rp'' @ w @ t @ post)"
    using tokopedia_rp_fallback[of html ct "pre @ ''Rp'' @ w @ t @ post" r] by blast
  also have "\<dots> = Some (to_double (of_int (digits_val (filter is_digit t))))"
    using a by (simp only: rp_fallback_value[OF m] if_True)
  finally show "price r = Some (to_double (of_int (digits_val (filter is_digit t))))" .
next
  show "extractTokopediaPriceAndStock (\<lambda>h. Inr ''Rp30.999.000'') ''<span>Rp30.999.000</span>''
        = Inr \<lparr>price = Some (Num 30999000), inStock = None\<rparr>" by code_simp
next
  show \<open>price (extractAmazonPriceAndStock ''{"desktop_buybox_group_1":[{"displayPrice":"IDR 501,282.85"}]}'')
        = Some (to_double (50128285 / 100))\<close> by code_simp
next
  show \<open>price (extractAmazonPriceAndStock ''{"priceAmount":29.99}'') = Some (to_double (2999 / 100))\<close>
    by code_simp
qed

theorem currency_cleanup_by_marketplace_witness:
  \<open>priceAmount_field ''{"priceAmount":29.99}'' = Some ''29.99'' \<and> is_numeral ''29.99''
   \<and> price (extractAmazonPriceAndStock ''{"priceAmount":29.99}'')
        = Some (to_double (numeral_value ''29.99''))
   \<and> buyBox_displayPrice ''{"desktop_buybox_group_1":[{"displayPrice":"IDR 501,282.85"}]}''
        = Some ''IDR 501,282.85''
   \<and> currency_cleanup ''IDR 501,282.85'' = ''501282.85'' \<and> is_numeral ''501282.85''
   \<and> numeral_value ''501282.85'' = 50128285 / 100
   \<and> price (extractAmazonPriceAndStock ''{"desktop_buybox_group_1":[{"displayPrice":"IDR 501,282.85"}]}'')
        = Some (to_double (numeral_value ''501282.85''))
   \<and> summary_purchase ''Product Summary: One-time purchase: IDR 12.50'' = Some ''IDR 12.50''
   \<and> price (extractAmazonPriceAndStock ''Product Summary: One-time purchase: IDR 12.50'')
        = Some (to_double (numeral_value ''12.50''))
   \<and> buyBox_displayPrice ''{"desktop_buybox_group_1":[{"displayPrice":"N/A"}]} Product Summary: One-time purchase: IDR 12.50''
        = Some ''N/A''
   \<and> currency_cleanup ''N/A'' = []
   \<and> price (extractAmazonPriceAndStock ''{"desktop_buybox_group_1":[{"displayPrice":"N/A"}]} Product Summary: One-time purchase: IDR 12.50'')
        = summary_strategy ''{"desktop_buybox_group_1":[{"displayPrice":"N/A"}]} Product Summary: One-time purchase: IDR 12.50''
   \<and> summary_purchase ''Product Summary: One-time purchase: free'' = Some ''free''
   \<and> price (extractAmazonPriceAndStock ''Product Summary: One-time purchase: free'') = None
   \<and> price_param ''<span>Rp30.999.000</span>'' = None
   \<and> rp_text ''Rp30.999.000'' = Some ''30.999.000''
   \<and> price \<lparr>price = Some (Num 30999000), inStock = None\<rparr>
        = Some (Num (of_int (digits_val (filter is_digit ''30.999.000''))))
   \<and> (\<exists>r. extractTokopediaPriceAndStock (\<lambda>h. Inr ''Harga Rp 1.500 saja'') ''<p>Harga Rp 1.500 saja</p>'' = Inr r
         \<and> price r = Some (to_double (of_int (digits_val (filter is_digit ''1.500'')))))\<close>
proof -
  let ?h1 = \<open>''{"priceAmount":29.99}''\<close>
  let ?h2 = \<open>''{"desktop_buybox_group_1":[{"displayPrice":"IDR 501,282.85"}]}''\<close>
  let ?h3 = "''Product Summary: One-time purchase: IDR 12.50''"
  let ?h4 = \<open>''{"desktop_buybox_group_1":[{"displayPrice":"N/A"}]} Product Summary: One-time purchase: IDR 12.50''\<close>
  let ?h5 = "''Product Summary: One-time purchase: free''"
  let ?h6 = "''<span>Rp30.999.000</span>''"
  let ?h7 = "''<p>Harga Rp 1.500 saja</p>''"
  let ?c6 = "\<lambda>h::string. Inr ''Rp30.999.000'' :: error + string"
  let ?c7 = "\<lambda>h::string. Inr ''Harga Rp 1.500 saja'' :: error + string"
  let ?r6 = "\<lparr>price = Some (Num 30999000), inStock = None\<rparr>"
  note T = currency_cleanup_by_marketplace
  have m: "priceAmount_field ?h1 = Some ''29.99''"
    "priceAmount_field ?h2 = None" "buyBox_displayPrice ?h2 = Some ''IDR 501,282.85''"
    "priceAmount_field ?h3 = None" "buyBox_displayPrice ?h3 = None"
    "summary_purchase ?h3 = Some ''IDR 12.50''"
    "priceAmount_field ?h4 = None" "buyBox_displayPrice ?h4 = Some ''N/A''"
    "priceAmount_field ?h5 = None" "buyBox_displayPrice ?h5 = None"
    "summary_purchase ?h5 = Some ''free''"
    "price_param ?h6 = None" "rp_text ''Rp30.999.000'' = Some ''30.999.000''"
    "price_param ?h7 = None"
    by code_simp+
  have c: "currency_cleanup ''IDR 501,282.85'' = ''501282.85''" "currency_cleanup ''IDR 12.50'' = ''12.50''"
    "currency_cleanup ''N/A'' = []" "currency_cleanup ''free'' = []"
    by (simp_all add: currency_cleanup_def)
  have n: "is_numeral ''29.99''" "is_numeral ''501282.85''" "is_numeral ''12.50''"
    by (simp_all add: is_numeral_def is_digit_def)
  have v: "numeral_value ''501282.85'' = 50128285 / 100"
    by (simp add: numeral_value_def is_digit_def digits_val_def digit_val_def)
  have d: "digits_val (filter is_digit ''30.999.000'') = 30999000"
    "digits_val (filter is_digit ''1.500'') = 1500"
    by (simp_all add: is_digit_def digits_val_def digit_val_def)
  let ?r0 = "\<lparr>price = None, inStock = None\<rparr>"
  let ?c0 = "\<lambda>h::string. Inr [] :: error + string"
  have lt: "digits_val (filter is_digit ''30.999.000'') < 2 ^ 53" unfolding d by simp
  have lx: "list_ex is_digit ''30.999.000''" by (simp add: is_digit_def)
  from T[of ?h1 "''29.99''" "[]" "[]" ?c0 "[]" "[]" ?r0 "[]" "[]" "[]"] m n
  have 1: "price (extractAmazonPriceAndStock ?h1) = Some (to_double (numeral_value ''29.99''))"
    by blast
  from T[of ?h2 "[]" "''IDR 501,282.85''" "[]" ?c0 "[]" "[]" ?r0 "[]" "[]" "[]", unfolded c] m n
  have 2: "price (extractAmazonPriceAndStock ?h2) = Some (to_double (numeral_value ''501282.85''))"
    by blast
  from T[of ?h3 "[]" "[]" "''IDR 12.50''" ?c0 "[]" "[]" ?r0 "[]" "[]" "[]", unfolded c] m n
  have 3: "price (extractAmazonPriceAndStock ?h3) = Some (to_double (numeral_value ''12.50''))"
    by blast
  have nd: "\<not> list_ex is_digit []" by simp
  from T[of ?h4 "[]" "''N/A''" "[]" ?c0 "[]" "[]" ?r0 "[]" "[]" "[]", unfolded c] m nd
  have 4: "price (extractAmazonPriceAndStock ?h4) = summary_strategy ?h4" by blast
  from T[of ?h5 "[]" "[]" "''free''" ?c0 "[]" "[]" ?r0 "[]" "[]" "[]", unfolded c] m nd
  have 5: "price (extractAmazonPriceAndStock ?h5) = None" by blast
  have e6: "extractTokopediaPriceAndStock ?c6 ?h6 = Inr ?r6"
    using T[of "[]" "[]" "[]" "[]" ?c0 "[]" "[]" ?r0 "[]" "[]" "[]"] by blast
  have c6: "?c6 ?h6 = Inr ''Rp30.999.000''" by simp
  from T[of ?h6 "[]" "[]" "[]" ?c6 "''Rp30.999.000''" "''30.999.000''" ?r6 "[]" "[]" "[]"] m e6 c6 lx lt
  have 6: "price ?r6 = Some (Num (of_int (digits_val (filter is_digit ''30.999.000''))))"
    by blast
  obtain r7 where e7: "extractTokopediaPriceAndStock ?c7 ?h7 = Inr r7"
    using tokopedia_reading[of ?c7 ?h7 "''Harga Rp 1.500 saja''"] by blast
  have s7: "?c7 ?h7 = Inr (''Harga '' @ ''Rp'' @ '' '' @ ''1.500'' @ '' saja'')"
    "CHR ''R'' \<notin> set ''Harga ''" "list_all is_ws '' ''"
    "list_all (\<lambda>c. is_digit c \<or> c = CHR ''.'') ''1.500''" "list_ex is_digit ''1.500''"
    "\<not> (is_digit (hd '' saja'') \<or> hd '' saja'' = CHR ''.'')"
    by (simp_all add: is_ws_def ws_chars_def is_digit_def)
  from T[of ?h7 "[]" "[]" "[]" ?c7 "[]" "''1.500''" r7 "''Harga ''" "'' ''" "'' saja''"] m e7 s7
  have 7: "price r7 = Some (to_double (of_int (digits_val (filter is_digit ''1.500''))))"
    by blast
  from e7 7 have 8: "\<exists>r. extractTokopediaPriceAndStock ?c7 ?h7 = Inr r
         \<and> price r = Some (to_double (of_int (digits_val (filter is_digit ''1.500''))))" by blast
  show ?thesis
    apply (intro conjI)
    using m c n v 1 2 3 4 5 6 8 apply (simp_all only:)
    done
qed

text \<open>
  C3, as stated, fails in three ways. On Tokopedia the cleanup is another one: keeping
  digits, points and commas and dropping the commas would read \<open>Rp1,500\<close> as 1500 and
  \<open>Rp30.999.000\<close> as 30.999, where the extractor gives 1 and 30999000. On Amazon a
  display price without a digit does not make the price null when the summary has one.
  And what the cleanup leaves need not be a numeral for a price to come out: the display
  price \<open>1.2.3\<close> gives 1.2.
\<close>

theorem currency_cleanup_differs:
  \<open>extractTokopediaPriceAndStock (\<lambda>h. Inr ''Rp1,500'') []
       = Inr \<lparr>price = Some (Num 1), inStock = None\<rparr>
   \<and> parseFloat (currency_cleanup ''Rp1,500'') = Num 1500
   \<and> extractTokopediaPriceAndStock (\<lambda>h. Inr ''Rp30.999.000'') []
       = Inr \<lparr>price = Some (Num 30999000), inStock = None\<rparr>
   \<and> parseFloat (currency_cleanup ''Rp30.999.000'') = to_double (30999 / 1000)
   \<and> js_lt (to_double (30999 / 1000)) (Num 31)
   \<and> currency_cleanup ''N/A'' = []
   \<and> price (extractAmazonPriceAndStock
        ''{"desktop_buybox_group_1":[{"displayPrice":"N/A"}]} Product Summary: One-time purchase: IDR 12.50'')
       = Some (Num (25 / 2))
   \<and> currency_cleanup ''1.2.3'' = ''1.2.3'' \<and> \<not> is_numeral ''1.2.3''
   \<and> price (extractAmazonPriceAndStock ''{"desktop_buybox_group_1":[{"displayPrice":"1.2.3"}]}'')
       = Some (to_double (6 / 5))\<close>
proof -
  have 1: "extractTokopediaPriceAndStock (\<lambda>h. Inr ''Rp1,500'') []
       = Inr \<lparr>price = Some (Num 1), inStock = None\<rparr>"
    "extractTokopediaPriceAndStock (\<lambda>h. Inr ''Rp30.999.000'') []
       = Inr \<lparr>price = Some (Num 30999000), inStock = None\<rparr>"
    by code_simp+
  have 2: "parseFloat (currency_cleanup ''Rp1,500'') = Num 1500"
    "parseFloat (currency_cleanup ''Rp30.999.000'') = to_double (30999 / 1000)"
    "js_lt (to_double (30999 / 1000)) (Num 31)"
    by code_simp+
  have 3: "currency_cleanup ''N/A'' = []" "currency_cleanup ''1.2.3'' = ''1.2.3''"
    "\<not> is_numeral ''1.2.3''"
    by (simp_all add: currency_cleanup_def is_numeral_def is_digit_def)
  have 4: \<open>price (extractAmazonPriceAndStock
        ''{"desktop_buybox_group_1":[{"displayPrice":"N/A"}]} Product Summary: One-time purchase: IDR 12.50'')
       = Some (Num (25 / 2))\<close>
    \<open>price (extractAmazonPriceAndStock ''{"desktop_buybox_group_1":[{"displayPrice":"1.2.3"}]}'')
       = Some (to_double (6 / 5))\<close>
    by code_simp+
  from 1 2 3 4 show ?thesis by blast
qed

section \<open>The change decision and the orchestrator: properties\<close>

text \<open>
  C1. For every previous state and every reading with a price, the decision is:
  \<open>nowInStock\<close> is the reading's stock when it is known and the stored \<open>lastInStock\<close>
  otherwise; \<open>priceDropped\<close> holds exactly when a last price is stored and the new price
  is strictly below it, as numbers compare: both are finite and the new one is the
  smaller, or the last one is \<open>+Infinity\<close> and the new one is finite or \<open>-Infinity\<close>, or
  the new one is \<open>-Infinity\<close> and the last one is finite; \<open>restocked\<close> holds exactly
  when the stored stock is false and \<open>nowInStock\<close> is true.
\<close>

theorem decide_spec:
  "nowInStock (decide lastPrice prevInStock p stock) = (case stock of Some b \<Rightarrow> b | None \<Rightarrow> prevInStock)
   \<and> priceDropped (decide lastPrice prevInStock p stock)
       = ((\<exists>x y. p = Num x \<and> lastPrice = Some (Num y) \<and> x < y)
          \<or> (\<exists>x. p = Num x \<and> lastPrice = Some PosInf)
          \<or> (\<exists>y. p = NegInf \<and> lastPrice = Some (Num y))
          \<or> (p = NegInf \<and> lastPrice = Some PosInf))
   \<and> restocked (decide lastPrice prevInStock p stock)
       = (prevInStock = False \<and> nowInStock (decide lastPrice prevInStock p stock) = True)"
proof -
  have "js_lt p q = ((\<exists>x y. p = Num x \<and> q = Num y \<and> x < y) \<or> (\<exists>x. p = Num x \<and> q = PosInf)
                      \<or> (\<exists>y. p = NegInf \<and> q = Num y) \<or> (p = NegInf \<and> q = PosInf))" for q
    by (cases p; cases q) simp_all
  then show ?thesis
    by (cases lastPrice) (simp_all add: decide_def Let_def)
qed

lemma calls_issue: "calls (issue w c) = calls w @ [c]"
  by (simp add: issue_def)

lemma products_issue: "products (issue w c) = products w"
  by (simp add: issue_def)

text \<open>
  C2. When the extraction of a record with its required fields yields no price, the item
  is skipped: the only command issued is the page fetch, no update is sent and the
  products table is as it was.
\<close>

theorem null_price_skips:
  assumes "product_url it = Some u" and "user_id it = Some uid" and "u \<noteq> []" and "uid \<noteq> []"
    and "axios_get e u = Inr html" and "extr html = Inr r" and "price r = None"
  shows "loop_body e label extr (n, w) it = (Suc n, issue w (HttpGet u))
         \<and> products (snd (loop_body e label extr (n, w) it)) = products w
         \<and> calls (snd (loop_body e label extr (n, w) it)) = calls w @ [HttpGet u]"
  using assms by (simp add: loop_body_def try_item_def Let_def calls_issue products_issue)

theorem null_price_skips_witness:
  \<open>product_url ex_item = Some ''https://shop.example/p/1'' \<and> user_id ex_item = Some ''u1''
   \<and> axios_get (ex_env [] ''<html>no price</html>'') ''https://shop.example/p/1'' = Inr ''<html>no price</html>''
   \<and> price (extractAmazonPriceAndStock ''<html>no price</html>'') = None
   \<and> loop_body (ex_env [] ''<html>no price</html>'') ''Amazon'' (\<lambda>h. Inr (extractAmazonPriceAndStock h)) (0, ex_world) ex_item
         = (Suc 0, issue ex_world (HttpGet ''https://shop.example/p/1''))
   \<and> products (snd (loop_body (ex_env [] ''<html>no price</html>'') ''Amazon'' (\<lambda>h. Inr (extractAmazonPriceAndStock h)) (0, ex_world) ex_item))
         = products ex_world\<close>
proof -
  have a: "product_url ex_item = Some ''https://shop.example/p/1''" "user_id ex_item = Some ''u1''"
    by (simp_all add: ex_item_def)
  have b: "axios_get (ex_env [] ''<html>no price</html>'') ''https://shop.example/p/1'' = Inr ''<html>no price</html>''"
    by (simp add: ex_env_def)
  have c: "price (extractAmazonPriceAndStock ''<html>no price</html>'') = None"
    by code_simp
  have ne: "''https://shop.example/p/1'' \<noteq> []" "''u1'' \<noteq> []" by simp_all
  from null_price_skips [of ex_item "''https://shop.example/p/1''" "''u1''"
      "ex_env [] ''<html>no price</html>''" "''<html>no price</html>''"
      "\<lambda>h. Inr (extractAmazonPriceAndStock h)" "extractAmazonPriceAndStock ''<html>no price</html>''"
      "''Amazon''" 0 ex_world, OF a ne b refl c] a b c
  show ?thesis by blast
qed

lemma notify_effects:
  "\<exists>cs. calls (fst (notify e label w u uid lp p d)) = calls w @ cs
     \<and> products (fst (notify e label w u uid lp p d)) = products w
     \<and> (\<forall>c\<in>set cs. \<not> is_update c)
     \<and> (\<forall>c\<in>set cs. is_publish c \<longrightarrow> sns_send e c = Some err \<longrightarrow>
            snd (notify e label w u uid lp p d) = Some err)"
  by (auto simp add: notify_def Let_def calls_issue products_issue split: sum.splits option.splits)

lemma persist_effects:
  "calls (fst (persist e w u p b)) = calls w @ [Update u p b (now e)]"
  by (simp add: persist_def Let_def calls_issue split: option.splits)

lemma item_block_calls:
  "\<exists>cs. calls (fst (try_item e label extr w u uid lp prev)) = calls w @ cs
     \<and> (\<forall>c\<in>set cs. is_publish c \<longrightarrow> sns_send e c = Some err \<longrightarrow>
           snd (try_item e label extr w u uid lp prev) = Some err
           \<and> products (fst (try_item e label extr w u uid lp prev)) = products w
           \<and> (\<forall>c\<in>set cs. \<not> is_update c))"
proof (cases "axios_get e u")
  case (Inl er)
  then have "try_item e label extr w u uid lp prev = (issue w (HttpGet u), Some er)"
    by (simp add: try_item_def Let_def)
  then show ?thesis by (simp add: calls_issue)
next
  case (Inr html)
  show ?thesis
  proof (cases "extr html")
    case (Inl er)
    with Inr have "try_item e label extr w u uid lp prev = (issue w (HttpGet u), Some er)"
      by (simp add: try_item_def Let_def)
    then show ?thesis by (simp add: calls_issue)
  next
    case R: (Inr r)
  show ?thesis
  proof (cases "price r")
    case None
    with Inr R have "try_item e label extr w u uid lp prev = (issue w (HttpGet u), None)"
      by (simp add: try_item_def Let_def)
    then show ?thesis by (simp add: calls_issue)
  next
    case (Some p)
    define d where "d = decide lp prev p (inStock r)"
    define w1 where "w1 = issue w (HttpGet u)"
    show ?thesis
    proof (cases "priceDropped d \<or> restocked d")
      case False
      with Inr R Some have "try_item e label extr w u uid lp prev = persist e w1 u p (nowInStock d)"
        by (simp add: try_item_def Let_def d_def w1_def)
      then have "calls (fst (try_item e label extr w u uid lp prev))
                   = calls w @ [HttpGet u, Update u p (nowInStock d) (now e)]"
        by (simp add: persist_effects w1_def calls_issue)
      then show ?thesis by simp
    next
      case True
      define N where "N = notify e label w1 u uid lp p d"
      obtain cs where cs: "calls (fst N) = calls w1 @ cs" "products (fst N) = products w1"
        "\<forall>c\<in>set cs. \<not> is_update c"
        "\<forall>c\<in>set cs. is_publish c \<longrightarrow> sns_send e c = Some err \<longrightarrow> snd N = Some err"
        using notify_effects[of e label w1 u uid lp p d err] unfolding N_def by blast
      show ?thesis
      proof (cases "snd N")
        case None
        with Inr R Some True have "try_item e label extr w u uid lp prev = persist e (fst N) u p (nowInStock d)"
          by (simp add: try_item_def Let_def d_def w1_def N_def)
        then have "calls (fst (try_item e label extr w u uid lp prev))
                   = calls w @ (HttpGet u # cs @ [Update u p (nowInStock d) (now e)])"
          by (simp add: persist_effects cs w1_def calls_issue)
        moreover have "\<forall>c\<in>set (HttpGet u # cs @ [Update u p (nowInStock d) (now e)]).
                         is_publish c \<longrightarrow> sns_send e c \<noteq> Some err"
          using cs(4) None by auto
        ultimately show ?thesis by blast
      next
        case (Some er)
        with Inr R \<open>price r = Some p\<close> True
        have eq: "try_item e label extr w u uid lp prev = (fst N, Some er)"
          by (simp add: try_item_def Let_def d_def w1_def N_def)
        then have "calls (fst (try_item e label extr w u uid lp prev)) = calls w @ (HttpGet u # cs)"
          by (simp add: cs w1_def calls_issue)
        moreover have "\<forall>c\<in>set (HttpGet u # cs). is_publish c \<longrightarrow> sns_send e c = Some err \<longrightarrow>
             snd (try_item e label extr w u uid lp prev) = Some err
           \<and> products (fst (try_item e label extr w u uid lp prev)) = products w
           \<and> (\<forall>c\<in>set (HttpGet u # cs). \<not> is_update c)"
          using cs Some eq by (auto simp add: w1_def products_issue)
        ultimately show ?thesis by blast
      qed
    qed
  qed
  qed
qed

text \<open>
  C8. When a notification sent for an item throws, the exception leaves the \<open>try\<close> block
  of that item and is caught there: no update is issued for the item, the products table
  is as it was, and the loop goes on with the next record.
\<close>

theorem publish_failure_skips_persist:
  assumes url: "product_url it = Some u" "u \<noteq> []" and usr: "user_id it = Some uid" "uid \<noteq> []"
    and c: "c \<in> set (new_calls w (snd (loop_body e label extr (n, w) it)))"
    and p: "is_publish c" and f: "sns_send e c = Some err"
  shows "snd (try_item e label extr w u uid
                (case last_price it of Some (ANum x) \<Rightarrow> Some x | _ \<Rightarrow> None)
                (case in_stock it of Some (ABool b) \<Rightarrow> b | _ \<Rightarrow> False)) = Some err
       \<and> products (snd (loop_body e label extr (n, w) it)) = products w
       \<and> (\<forall>c'\<in>set (new_calls w (snd (loop_body e label extr (n, w) it))). \<not> is_update c')
       \<and> for_items e label extr (n, w) (it # rest)
           = for_items e label extr (Suc n, snd (loop_body e label extr (n, w) it)) rest"
proof -
  define lp where "lp = (case last_price it of Some (ANum x) \<Rightarrow> Some x | _ \<Rightarrow> None)"
  define prev where "prev = (case in_stock it of Some (ABool b) \<Rightarrow> b | _ \<Rightarrow> False)"
  define T where "T = try_item e label extr w u uid lp prev"
  have body: "loop_body e label extr (n, w) it = (n + 1, fst T)"
    using url usr by (simp add: loop_body_def Let_def T_def lp_def prev_def)
  obtain cs where cs: "calls (fst T) = calls w @ cs"
    "\<forall>c\<in>set cs. is_publish c \<longrightarrow> sns_send e c = Some err \<longrightarrow>
        snd T = Some err \<and> products (fst T) = products w \<and> (\<forall>c\<in>set cs. \<not> is_update c)"
    unfolding T_def using item_block_calls [of e label extr w u uid lp prev err] by blast
  have new: "new_calls w (snd (loop_body e label extr (n, w) it)) = cs"
    by (simp add: body new_calls_def cs(1))
  from c new have "c \<in> set cs" by simp
  with cs(2) p f have "snd T = Some err" "products (fst T) = products w" "\<forall>c\<in>set cs. \<not> is_update c"
    by blast+
  then show ?thesis
    unfolding new by (simp add: body for_items_def T_def lp_def prev_def)
qed

theorem publish_failure_skips_persist_witness:
  \<open>Publish ''arn:price-drop'' ''Price Drop Alert (Amazon)''
       (PriceDropMessage ''https://shop.example/p/1'' (Some (Num 50)) (Num (59 / 2)) ''u1'' ''user@example.org'')
     \<in> set (new_calls ex_world (snd (loop_body (ex_env [ex_item] ''{"priceAmount":29.5} In Stock'') ''Amazon''
                 (\<lambda>h. Inr (extractAmazonPriceAndStock h)) (0, ex_world) ex_item)))
   \<and> products (snd (loop_body (ex_env [ex_item] ''{"priceAmount":29.5} In Stock'') ''Amazon''
                 (\<lambda>h. Inr (extractAmazonPriceAndStock h)) (0, ex_world) ex_item)) = Map.empty
   \<and> for_items (ex_env [ex_item] ''{"priceAmount":29.5} In Stock'') ''Amazon'' (\<lambda>h. Inr (extractAmazonPriceAndStock h)) (0, ex_world) [ex_item, ex_item]
      = for_items (ex_env [ex_item] ''{"priceAmount":29.5} In Stock'') ''Amazon'' (\<lambda>h. Inr (extractAmazonPriceAndStock h))
          (Suc 0, snd (loop_body (ex_env [ex_item] ''{"priceAmount":29.5} In Stock'') ''Amazon''
                 (\<lambda>h. Inr (extractAmazonPriceAndStock h)) (0, ex_world) ex_item)) [ex_item]\<close>
proof -
  let ?e = \<open>ex_env [ex_item] ''{"priceAmount":29.5} In Stock''\<close>
  let ?c = "Publish ''arn:price-drop'' ''Price Drop Alert (Amazon)''
       (PriceDropMessage ''https://shop.example/p/1'' (Some (Num 50)) (Num (59 / 2)) ''u1'' ''user@example.org'')"
  have r: \<open>extractAmazonPriceAndStock ''{"priceAmount":29.5} In Stock'' = \<lparr>price = Some (Num (59 / 2)), inStock = Some True\<rparr>\<close>
    by code_simp
  have body: "snd (loop_body ?e ''Amazon'' (\<lambda>h. Inr (extractAmazonPriceAndStock h)) (0, ex_world) ex_item)
      = \<lparr>products = Map.empty, calls = [HttpGet ''https://shop.example/p/1'', GetUser ''u1'', ?c]\<rparr>"
    by (simp add: loop_body_def try_item_def notify_def decide_def issue_def ex_env_def ex_item_def
          ex_world_def r Let_def)
  have a: "product_url ex_item = Some ''https://shop.example/p/1''" "''https://shop.example/p/1'' \<noteq> []"
    "user_id ex_item = Some ''u1''" "''u1'' \<noteq> []"
    by (simp_all add: ex_item_def)
  have c: "?c \<in> set (new_calls ex_world (snd (loop_body ?e ''Amazon'' (\<lambda>h. Inr (extractAmazonPriceAndStock h)) (0, ex_world) ex_item)))"
    unfolding body new_calls_def by (simp add: ex_world_def)
  have f: "sns_send ?e ?c = Some PublishError" by (simp add: ex_env_def)
  have "products ex_world = Map.empty" by (simp add: ex_world_def)
  with publish_failure_skips_persist [of ex_item "''https://shop.example/p/1''" "''u1''" ?c ex_world ?e
      "''Amazon''" "\<lambda>h. Inr (extractAmazonPriceAndStock h)" 0 PublishError "[ex_item]"] a f c show ?thesis
    by simp
qed

lemma fst_loop_body: "fst (loop_body e label extr st it) = fst st + 1"
  by (simp add: loop_body_def Let_def split: option.splits prod.splits)

lemma fst_for_items: "fst (for_items e label extr st its) = fst st + length its"
  unfolding for_items_def
  by (induction its arbitrary: st) (simp_all add: fst_loop_body)

lemma scan_loop_count:
  "map_option fst (scan_loop n e label extr key st)
     = map_option (map_sum (\<lambda>err. err) (\<lambda>its. fst st + length its)) (scanned n e key)"
proof (induction n arbitrary: key st)
  case 0
  show ?case by simp
next
  case (Suc n)
  show ?case
  proof (cases "scan e key")
    case (Inl err)
    then show ?thesis by simp
  next
    case (Inr out)
    define items where "items = (case Items out of None \<Rightarrow> [] | Some its \<Rightarrow> its)"
    show ?thesis
    proof (cases "LastEvaluatedKey out")
      case None
      with Inr show ?thesis by (simp add: Let_def fst_for_items)
    next
      case (Some k)
      have "map_option fst (scan_loop (Suc n) e label extr key st)
              = map_option fst (scan_loop n e label extr (Some k) (for_items e label extr st items))"
        using Inr Some by (simp add: Let_def items_def)
      also have "\<dots> = map_option (map_sum (\<lambda>err. err) (\<lambda>its. fst st + length items + length its))
                          (scanned n e (Some k))"
        by (simp add: Suc.IH fst_for_items)
      also have "\<dots> = map_option (map_sum (\<lambda>err. err) (\<lambda>its. fst st + length its)) (scanned (Suc n) e key)"
        using Inr Some
        by (cases "scanned n e (Some k)") (auto simp add: Let_def items_def split: sum.splits)
      finally show ?thesis .
    qed
  qed
qed

text \<open>
  C9, as the code has it. With the configuration present, the handler ends exactly when
  the scan requests end, and the count it reports is the number of records the scans
  returned. Every record counts: one without a \<open>product_url\<close> or a \<open>user_id\<close> is
  skipped, leaving the world as it was, and counted.
\<close>

theorem handler_count:
  "(PRODUCTS_TABLE e \<noteq> [] \<and> USERS_TABLE e \<noteq> [] \<longrightarrow>
      map_option fst (handler fuel e label extr w)
        = map_option (map_sum (\<lambda>err. err) length) (scanned fuel e None))
   \<and> (\<not> has_required_fields it \<longrightarrow> loop_body e label extr (n, w) it = (Suc n, w))"
proof (intro conjI impI)
  assume "PRODUCTS_TABLE e \<noteq> [] \<and> USERS_TABLE e \<noteq> []"
  then show "map_option fst (handler fuel e label extr w)
        = map_option (map_sum (\<lambda>err. err) length) (scanned fuel e None)"
    by (simp add: handler_def scan_loop_count)
next
  assume "\<not> has_required_fields it"
  then show "loop_body e label extr (n, w) it = (Suc n, w)"
    by (auto simp add: has_required_fields_def truthy_str_def loop_body_def Let_def
          split: option.splits)
qed

theorem handler_count_witness:
  "PRODUCTS_TABLE ex_skip_env \<noteq> [] \<and> USERS_TABLE ex_skip_env \<noteq> []
   \<and> scanned 1 ex_skip_env None = Some (Inr [ex_item_no_url])
   \<and> map_option fst (handler 1 ex_skip_env ''Amazon'' (\<lambda>h. Inr (extractAmazonPriceAndStock h)) ex_world) = Some (Inr 1)
   \<and> \<not> has_required_fields ex_item_no_url
   \<and> loop_body ex_skip_env ''Amazon'' (\<lambda>h. Inr (extractAmazonPriceAndStock h)) (0, ex_world) ex_item_no_url
        = (Suc 0, ex_world)"
proof -
  have a: "PRODUCTS_TABLE ex_skip_env \<noteq> [] \<and> USERS_TABLE ex_skip_env \<noteq> []"
    by (simp add: ex_skip_env_def ex_env_def)
  have s: "scanned 1 ex_skip_env None = Some (Inr [ex_item_no_url])"
    by (simp add: ex_skip_env_def ex_env_def)
  have r: "\<not> has_required_fields ex_item_no_url"
    by (simp add: has_required_fields_def truthy_str_def ex_item_no_url_def)
  note T = handler_count [of ex_skip_env 1 "''Amazon''" "\<lambda>h. Inr (extractAmazonPriceAndStock h)" ex_world
      ex_item_no_url 0]
  from T a have "map_option fst (handler 1 ex_skip_env ''Amazon'' (\<lambda>h. Inr (extractAmazonPriceAndStock h)) ex_world)
        = map_option (map_sum (\<lambda>err. err) length) (scanned 1 ex_skip_env None)" by blast
  then have 1: "map_option fst (handler 1 ex_skip_env ''Amazon'' (\<lambda>h. Inr (extractAmazonPriceAndStock h)) ex_world)
        = Some (Inr 1)" unfolding s by simp
  from T r have 2: "loop_body ex_skip_env ''Amazon'' (\<lambda>h. Inr (extractAmazonPriceAndStock h)) (0, ex_world) ex_item_no_url
        = (Suc 0, ex_world)" by blast
  from a s 1 r 2 show ?thesis by blast
qed

text \<open>
  C9, as stated, fails: a table whose only record has no \<open>product_url\<close> gives the count
  1, although no record with its required fields was scanned.
\<close>

theorem skipped_record_counted:
  "\<not> has_required_fields ex_item_no_url
   \<and> handler 1 ex_skip_env ''Amazon'' (\<lambda>h. Inr (extractAmazonPriceAndStock h)) ex_world = Some (Inr 1, ex_world)
   \<and> length (filter has_required_fields [ex_item_no_url]) = 0"
  by (simp add: handler_def ex_skip_env_def ex_env_def for_items_def loop_body_def ex_item_no_url_def
        has_required_fields_def truthy_str_def Let_def)

end
